theory Spec2Isabelle
  imports Main
begin

section \<open>JavaScript values and strings\<close>

text \<open>
  The annotation explorer of 4CAT (\<^verbatim>\<open>webtool/static/js/explorer.js\<close>) is jQuery code
  over the page's DOM. The embedding keeps the data each function reads and writes:
  the rows of the schema editor, the per-item annotation widgets, the classes and
  captions of the two buttons, the warning line, and the requests sent to the server.

  Strings are \<^typ>\<open>string\<close>, one \<^typ>\<open>char\<close> per code unit, so the code units
  modelled are 0 to 255. The values a handler can meet where the code expects a string
  are those of \<open>js_value\<close>.

  The repository holds a second, later copy of the script. For the functions embedded
  here it differs in three places: \<open>applyAnnotationFields\<close> reloads the page after
  saving a valid schema instead of rebuilding the widgets; \<open>parseAnnotation\<close> reads
  its checkboxes through the widget's input elements and adds a timestamp; and the
  option loop of \<open>parseAnnotationFields\<close> reads the id of an option input through a
  jQuery object, which has none. The embedding follows the first copy,
  \<^verbatim>\<open>webtool/static/js/explorer.js\<close>.
\<close>

datatype js_value =
  JUndefined | JNull | JBool bool | JNumber int | JString string | JArray "js_value list" | JObject

text \<open>
  The class \<^verbatim>\<open>\s\<close> of a regular expression, within the code units modelled: TAB, LF,
  VT, FF, CR, SPACE and the no-break space.
\<close>

definition is_space :: "char \<Rightarrow> bool" where
  "is_space c = (c \<in> set [CHR 0x09, CHR 0x0A, CHR 0x0B, CHR 0x0C, CHR 0x0D, CHR 0x20, CHR 0xA0])"

text \<open>
  \<^verbatim>\<open>s.replace(/\s+/g, ' ')\<close>: every maximal run of white space becomes one space.
  The flag says that the character before was white space, its run already replaced.
\<close>

fun replace_runs :: "bool \<Rightarrow> string \<Rightarrow> string" where
  "replace_runs in_run [] = []"
| "replace_runs in_run (c # cs) =
     (if is_space c
      then (if in_run then replace_runs True cs else CHR 0x20 # replace_runs True cs)
      else c # replace_runs False cs)"

definition replace_spaces :: "string \<Rightarrow> string" where
  "replace_spaces s = replace_runs False s"

text \<open>\<^verbatim>\<open>s.split(sep)\<close> for a separator that is not empty: never an empty array.\<close>

function js_split :: "string \<Rightarrow> string \<Rightarrow> string list" where
  "js_split sep [] = [[]]"
| "js_split sep (c # cs) =
     (if sep \<noteq> [] \<and> take (length sep) (c # cs) = sep
      then [] # js_split sep (drop (length sep) (c # cs))
      else (case js_split sep cs of
              [] \<Rightarrow> [[c]]
            | p # ps \<Rightarrow> (c # p) # ps))"
  by pat_completeness auto
termination
  by (relation "measure (\<lambda>(sep, s). length s)") auto

text \<open>\<^verbatim>\<open>xs[i]\<close>: \<^verbatim>\<open>undefined\<close> (here \<open>None\<close>) out of range.\<close>

definition js_index :: "'a list \<Rightarrow> nat \<Rightarrow> 'a option" where
  "js_index xs i = (if i < length xs then Some (xs ! i) else None)"

text \<open>\<^verbatim>\<open>xs.at(-1)\<close>: the last element, \<^verbatim>\<open>undefined\<close> for an empty array.\<close>

definition js_at_last :: "'a list \<Rightarrow> 'a option" where
  "js_at_last xs = (if xs = [] then None else Some (last xs))"

text \<open>
  \<^verbatim>\<open>s.replace(pat, rep)\<close> with a string pattern: the first occurrence only.
\<close>

fun js_replace :: "string \<Rightarrow> string \<Rightarrow> string \<Rightarrow> string" where
  "js_replace pat rep [] = (if pat = [] then rep else [])"
| "js_replace pat rep (c # cs) =
     (if take (length pat) (c # cs) = pat then rep @ drop (length pat) (c # cs)
      else c # js_replace pat rep cs)"

text \<open>
  The test \<^verbatim>\<open>!x.length > 0\<close> that the code writes for "is empty": the negation binds
  first, so it is \<^verbatim>\<open>(!x.length) > 0\<close>, the boolean read as 1 or 0.
\<close>

definition not_length_gt_0 :: "'a list \<Rightarrow> bool" where
  "not_length_gt_0 xs = ((if length xs = 0 then 1 else 0 :: nat) > 0)"

text \<open>
  A string or \<^verbatim>\<open>undefined\<close> used as the key of an object or joined to a string:
  \<^verbatim>\<open>undefined\<close> becomes \<^verbatim>\<open>"undefined"\<close>.
\<close>

definition string_of :: "string option \<Rightarrow> string" where
  "string_of k = (case k of None \<Rightarrow> ''undefined'' | Some s \<Rightarrow> s)"

text \<open>
  An object written key by key, as an association list in the order of the first
  assignment of each key; a key assigned again keeps its place. (JavaScript lists keys
  that are array indexes first, in ascending order; the ids of fields are taken not
  to be such keys.)
\<close>

fun js_assign :: "string \<Rightarrow> 'v \<Rightarrow> (string \<times> 'v) list \<Rightarrow> (string \<times> 'v) list" where
  "js_assign k v [] = [(k, v)]"
| "js_assign k v ((k', v') # kvs) =
     (if k = k' then (k, v) # kvs else (k', v') # js_assign k v kvs)"


section \<open>The schema editor\<close>

text \<open>
  One option input of a dropdown or checkbox field: \<^verbatim>\<open>div.option-field\<close> holding an
  \<^verbatim>\<open>input\<close> and, when the option can be deleted, an \<^verbatim>\<open>a.delete-option-field\<close>.
\<close>

record option_field =
  input_elem_id :: string
  input_val :: string
  delete_option_field :: bool

text \<open>
  One field of the editor, which the page lays out as three cells of a grid: the
  \<^verbatim>\<open>.annotation-field\<close> element with its label input, the cell of the type selector
  and the cell of the option inputs.
\<close>

record annotation_field =
  elem_id :: string
  label_val :: string
  type_val :: string
  option_fields :: "option_field list"

text \<open>A field definition of the schema; the options are a list of one-key objects.\<close>

record field_def =
  fd_type :: string
  fd_label :: string
  fd_options :: "(string \<times> string) list option"

type_synonym schema = "(string \<times> field_def) list"

text \<open>
  The loop over the option inputs of one field in \<open>parseAnnotationFields\<close>. The list
  \<open>set_warnings\<close> is not a variable of the code: it records, in order, every value
  assigned to \<open>warning\<close>.
\<close>

fun parse_options ::
  "option_field list \<Rightarrow> (string \<times> string) list \<Rightarrow> string list \<Rightarrow> bool \<Rightarrow> string \<Rightarrow> string list
    \<Rightarrow> (string \<times> string) list \<times> bool \<times> string \<times> string list" where
  "parse_options [] options option_labels no_options_added warning set_warnings =
     (options, no_options_added, warning, set_warnings)"
| "parse_options (inp # inps) options option_labels no_options_added warning set_warnings =
     (let option_label = input_val inp;
          option_id = js_replace ''input-'' '''' (input_elem_id inp)
      in if option_label \<notin> set option_labels \<and> length option_label > 0
         then parse_options inps (options @ [(option_id, option_label)])
                (option_labels @ [option_label]) False warning set_warnings
         else if option_label \<in> set option_labels
         then parse_options inps options option_labels no_options_added
                ''Fields must be unique'' (set_warnings @ [''Fields must be unique''])
         else parse_options inps options option_labels no_options_added warning set_warnings)"

text \<open>The checks of the label, an \<^verbatim>\<open>if\<close> / \<^verbatim>\<open>else if\<close> chain: at most one applies.\<close>

definition label_warning :: "string list \<Rightarrow> string list \<Rightarrow> string \<Rightarrow> string option" where
  "label_warning columns labels_added label =
     (if not_length_gt_0 label then Some ''Field labels can't be empty''
      else if label \<in> set labels_added then Some ''Field labels must be unique''
      else if label \<in> set columns
      then Some (''Field label '' @ label @ '' is already present as a dataset item, please rename.'')
      else None)"

text \<open>The loop over the fields of the editor.\<close>

fun parse_fields ::
  "string list \<Rightarrow> annotation_field list \<Rightarrow> schema \<Rightarrow> string \<Rightarrow> string list \<Rightarrow> string list
    \<Rightarrow> schema \<times> string \<times> string list" where
  "parse_fields columns [] annotation_fields warning labels_added set_warnings =
     (annotation_fields, warning, set_warnings)"
| "parse_fields columns (f # fs) annotation_fields warning labels_added set_warnings =
     (let label = replace_spaces (label_val f);
          field_id = string_of (js_index (js_split ''-'' (elem_id f)) 1);
          (warning1, set_warnings1) =
             (case label_warning columns labels_added label of
                None \<Rightarrow> (warning, set_warnings)
              | Some w \<Rightarrow> (w, set_warnings @ [w]));
          type = type_val f;
          labels_added1 = labels_added @ [label]
      in if type = ''text'' \<or> type = ''textarea''
         then parse_fields columns fs
                (js_assign field_id \<lparr>fd_type = type, fd_label = label, fd_options = None\<rparr>
                   annotation_fields)
                warning1 labels_added1 set_warnings1
         else (case parse_options (option_fields f) [] [] True warning1 set_warnings1 of
                 (options, no_options_added, warning2, set_warnings2) \<Rightarrow>
                   let (warning3, set_warnings3) =
                         (if no_options_added
                          then (''At least one field must be added'',
                                set_warnings2 @ [''At least one field must be added''])
                          else (warning2, set_warnings2));
                       annotation_fields1 =
                         (if length options > 0
                          then js_assign field_id
                                 \<lparr>fd_type = type, fd_label = replace_spaces label,
                                  fd_options = Some options\<rparr> annotation_fields
                          else annotation_fields)
                   in parse_fields columns fs annotation_fields1 warning3 labels_added1
                        set_warnings3))"

text \<open>
  What \<open>parseAnnotationFields\<close> returns for the fields of the editor and the reserved
  column names of the page: the warning (a string, \<open>Inl\<close>) or the schema (an object,
  \<open>Inr\<close>).
\<close>

definition parse_result :: "string list \<Rightarrow> annotation_field list \<Rightarrow> string + schema" where
  "parse_result columns rows =
     (case parse_fields columns rows [] '''' [] [] of
        (annotation_fields, warning, set_warnings) \<Rightarrow>
          if length warning > 0 then Inl warning else Inr annotation_fields)"

text \<open>The assignments to \<open>warning\<close> of one run, in order.\<close>

definition warnings_set :: "string list \<Rightarrow> annotation_field list \<Rightarrow> string list" where
  "warnings_set columns rows =
     (case parse_fields columns rows [] '''' [] [] of
        (annotation_fields, warning, set_warnings) \<Rightarrow> set_warnings)"


subsection \<open>Option inputs of one field\<close>

text \<open>
  \<open>getInputField\<close> builds a new option input; its id ends in a pseudo-random number,
  which the model takes as the argument \<open>random\<close>.
\<close>

definition getInputField :: "string \<Rightarrow> option_field" where
  "getInputField random =
     \<lparr>input_elem_id = ''input-'' @ random, input_val = '''', delete_option_field = False\<rparr>"

text \<open>
  \<open>toggleField\<close>, for the option inputs of the field whose type selector changed to
  \<open>type\<close>.
\<close>

definition toggleField :: "string \<Rightarrow> string \<Rightarrow> option_field list \<Rightarrow> option_field list" where
  "toggleField type random inputs =
     (if type = ''text'' \<or> type = ''textarea'' then []
      else if type = ''dropdown'' \<or> type = ''checkbox''
      then (if length inputs = 0 then inputs @ [getInputField random] else inputs)
      else inputs)"

text \<open>The loop of \<open>addOptions\<close> over the siblings of the edited input.\<close>

fun siblings_loop :: "option_field list \<Rightarrow> bool \<Rightarrow> bool" where
  "siblings_loop [] no_empty_fields = no_empty_fields"
| "siblings_loop (input_field # input_fields) no_empty_fields =
     siblings_loop input_fields
       (if not_length_gt_0 (input_val input_field) then False else no_empty_fields)"

text \<open>
  The last loop of \<open>addOptions\<close>: a delete control for every option input before the
  last; \<^verbatim>\<open>return false\<close> ends the loop at the last one.
\<close>

fun delete_controls_loop :: "nat \<Rightarrow> nat \<Rightarrow> option_field list \<Rightarrow> option_field list" where
  "delete_controls_loop count amount [] = []"
| "delete_controls_loop count amount (input_field # input_fields) =
     (if Suc count = amount then input_field # input_fields
      else input_field\<lparr>delete_option_field := True\<rparr>
             # delete_controls_loop (Suc count) amount input_fields)"

text \<open>
  \<open>addOptions\<close> for the option input at position \<open>el\<close> of its group. The new input
  goes right after the edited one.
\<close>

definition addOptions :: "nat \<Rightarrow> string \<Rightarrow> option_field list \<Rightarrow> option_field list" where
  "addOptions el random inputs =
     (if el < length inputs
      then (let no_empty_fields =
                  siblings_loop (take el inputs @ drop (Suc el) inputs)
                    (if not_length_gt_0 (input_val (inputs ! el)) then False else True);
                inputs1 =
                  (if no_empty_fields
                   then take (Suc el) inputs @ [getInputField random] @ drop (Suc el) inputs
                   else inputs);
                inputs2 = map (\<lambda>input_field. input_field\<lparr>delete_option_field := False\<rparr>) inputs1
            in delete_controls_loop 0 (length inputs2) inputs2)
      else inputs)"

text \<open>\<open>deleteOption\<close> for the delete control of the option input at position \<open>el\<close>.\<close>

definition deleteOption :: "nat \<Rightarrow> option_field list \<Rightarrow> option_field list" where
  "deleteOption el inputs =
     (let inputs1 = take el inputs @ drop (Suc el) inputs
      in if length inputs1 = 1
         then map (\<lambda>input_field. input_field\<lparr>delete_option_field := False\<rparr>) inputs1
         else inputs1)"

text \<open>
  The two handlers that \<open>init\<close> binds to an option group: a key released in the input
  at a position, whose text is then \<open>text\<close>, and a click on a delete control, which
  only an input that shows one can receive.
\<close>

datatype group_event = Keyup nat string string | ClickDelete nat

fun group_handler :: "group_event \<Rightarrow> option_field list \<Rightarrow> option_field list" where
  "group_handler (Keyup el text random) inputs =
     (if el < length inputs
      then (let inputs1 = inputs[el := (inputs ! el)\<lparr>input_val := text\<rparr>]
            in if length text > 0 then addOptions el random inputs1 else inputs1)
      else inputs)"
| "group_handler (ClickDelete el) inputs =
     (if el < length inputs \<and> delete_option_field (inputs ! el) then deleteOption el inputs
      else inputs)"

fun group_handlers :: "group_event list \<Rightarrow> option_field list \<Rightarrow> option_field list" where
  "group_handlers [] inputs = inputs"
| "group_handlers (ev # evs) inputs = group_handlers evs (group_handler ev inputs)"

text \<open>The number of empty option inputs at the end of a group.\<close>

definition trailing_empty :: "option_field list \<Rightarrow> nat" where
  "trailing_empty inputs = length (takeWhile (\<lambda>input_field. input_val input_field = []) (rev inputs))"

definition empty_inputs :: "option_field list \<Rightarrow> nat" where
  "empty_inputs inputs = length (filter (\<lambda>input_field. input_val input_field = []) inputs)"


section \<open>The items of the page and their annotation widgets\<close>

text \<open>
  An element keeps the attributes the code reads: its tag, its id, the tokens of its
  class attribute (what \<^verbatim>\<open>className.split(" ")\<close> gives), the value and the checked
  state of a form control, and its own text.
\<close>

record elem =
  tag :: string
  el_id :: string
  el_classes :: "string list"
  el_value :: string
  el_checked :: bool
  el_text :: string

datatype node = Node (attrs: elem) (kids: "node list")

text \<open>
  The markup of the page comes from a template of the server that is not among these
  sources. The model fixes its shape: every item is an \<^verbatim>\<open>li\<close> of \<^verbatim>\<open>.posts\<close> with one
  \<^verbatim>\<open>.post-annotations\<close> container, whose children are the item's widgets
  (\<^verbatim>\<open>div.post-annotation\<close>); the classes \<^verbatim>\<open>field-...\<close> stand on widgets only.
\<close>

record post =
  li_id :: string
  post_annotations :: "node list"

definition has_class :: "string \<Rightarrow> node \<Rightarrow> bool" where
  "has_class c n = (c \<in> set (el_classes (attrs n)))"

fun descendants :: "node \<Rightarrow> node list" where
  "descendants (Node e ks) = concat (map (\<lambda>k. k # descendants k) ks)"

text \<open>\<^verbatim>\<open>$(n).find("." + c)\<close> and \<^verbatim>\<open>$(n).children("." + c)\<close>.\<close>

definition find_class :: "string \<Rightarrow> node \<Rightarrow> node list" where
  "find_class c n = filter (has_class c) (descendants n)"

definition children_class :: "string \<Rightarrow> node \<Rightarrow> node list" where
  "children_class c n = filter (has_class c) (kids n)"

text \<open>\<^verbatim>\<open>.text()\<close>: the text of the matched elements and of all they contain.\<close>

fun node_text :: "node \<Rightarrow> string" where
  "node_text (Node e ks) = el_text e @ concat (map node_text ks)"

definition jq_text :: "node list \<Rightarrow> string" where
  "jq_text ns = concat (map node_text ns)"

text \<open>
  \<^verbatim>\<open>.val()\<close>: the value of the first matched element, \<^verbatim>\<open>undefined\<close> for an empty
  set. An element that is no form control has the value \<^verbatim>\<open>""\<close>. The value of a
  \<^verbatim>\<open>select\<close> is the one kept in \<open>el_value\<close>: a \<^verbatim>\<open>select\<close> without a selected option,
  for which jQuery gives \<^verbatim>\<open>null\<close>, is not modelled.
\<close>

definition form_control :: "elem \<Rightarrow> bool" where
  "form_control e = (tag e \<in> set [''input'', ''textarea'', ''select'', ''option''])"

definition val_of :: "node \<Rightarrow> string" where
  "val_of n = (if form_control (attrs n) then el_value (attrs n) else '''')"

definition jq_val :: "node list \<Rightarrow> js_value" where
  "jq_val ns = (case ns of [] \<Rightarrow> JUndefined | n # _ \<Rightarrow> JString (val_of n))"

text \<open>
  \<^verbatim>\<open>.is(":checked")\<close>: some matched element is a checked checkbox or radio button or
  a selected option. No other element is ever \<^verbatim>\<open>:checked\<close>.
\<close>

definition is_checked :: "node list \<Rightarrow> bool" where
  "is_checked ns =
     (\<exists>n \<in> set ns. (tag (attrs n) = ''input'' \<or> tag (attrs n) = ''option'') \<and> el_checked (attrs n))"

definition addClass :: "string \<Rightarrow> node \<Rightarrow> node" where
  "addClass c n =
     (if has_class c n then n
      else Node ((attrs n)\<lparr>el_classes := el_classes (attrs n) @ [c]\<rparr>) (kids n))"

definition removeClass :: "string \<Rightarrow> node \<Rightarrow> node" where
  "removeClass c n =
     Node ((attrs n)\<lparr>el_classes := filter (\<lambda>c'. c' \<noteq> c) (el_classes (attrs n))\<rparr>) (kids n)"

text \<open>\<^verbatim>\<open>.text(s)\<close> replaces what the element contains by the text \<open>s\<close>.\<close>

definition set_text :: "string \<Rightarrow> node \<Rightarrow> node" where
  "set_text s n = Node ((attrs n)\<lparr>el_text := s\<rparr>) []"

text \<open>An element freshly built from markup.\<close>

definition element :: "string \<Rightarrow> string \<Rightarrow> string list \<Rightarrow> string \<Rightarrow> string \<Rightarrow> elem" where
  "element t i cs v txt =
     \<lparr>tag = t, el_id = i, el_classes = cs, el_value = v, el_checked = False, el_text = txt\<rparr>"

text \<open>A function applied to a node and to all it contains, the contained nodes first.\<close>

fun transform :: "(node \<Rightarrow> node) \<Rightarrow> node \<Rightarrow> node" where
  "transform f (Node e ks) = f (Node e (map (transform f) ks))"


section \<open>The page\<close>

datatype js_error = TypeError

record annotation =
  field_id :: string
  item_id :: string
  label :: string
  ann_type :: string
  ann_value :: js_value
  author :: string
  by_processor :: bool

datatype payload = Fields schema | Annotations "annotation list"

record request =
  url :: string
  data :: payload

text \<open>
  What the functions read and write: the globals \<open>original_columns\<close> and
  \<open>annotation_fields\<close> that the server writes into the page, the editor, the line
  \<^verbatim>\<open>#input-warning\<close>, the buttons \<^verbatim>\<open>#apply-annotation-fields\<close>, \<^verbatim>\<open>#toggle-annotations\<close>,
  \<^verbatim>\<open>#save-annotations\<close> and \<^verbatim>\<open>#save-to-dataset\<close>, the items, the variable \<open>edits_made\<close>
  of \<open>init\<close>, the requests sent so far and the alerts shown. Heights and animations
  are not kept, nor is the class \<^verbatim>\<open>invalid\<close> of the editor's inputs.
\<close>

record page =
  original_columns :: "string list"
  annotation_fields_global :: schema
  editor :: "annotation_field list"
  input_warning :: string
  input_warning_hidden :: bool
  apply_html :: string
  apply_disabled :: bool
  editor_container_hidden :: bool
  toggle_disabled :: bool
  toggle_shown :: bool
  toggle_html :: string
  save_html :: string
  save_disabled :: bool
  save_to_dataset_disabled :: bool
  posts :: "post list"
  edits_made :: bool
  dataset_key :: string
  data_url_root :: "string option"
  requests :: "request list"
  alerts :: "string list"

definition warnEditor :: "string \<Rightarrow> page \<Rightarrow> page" where
  "warnEditor warning p = p\<lparr>input_warning := warning, input_warning_hidden := False\<rparr>"

definition showAnnotations :: "page \<Rightarrow> page" where
  "showAnnotations p =
     p\<lparr>toggle_shown := True, toggle_disabled := False,
       toggle_html := ''<i class='fas fa-eye-slash'></i> Hide annotations''\<rparr>"

definition hideAnnotations :: "page \<Rightarrow> page" where
  "hideAnnotations p =
     p\<lparr>toggle_shown := False, toggle_html := ''<i class='fas fa-eye'></i> Show annotations''\<rparr>"

definition enableSaving :: "page \<Rightarrow> page" where
  "enableSaving p =
     p\<lparr>save_disabled := False, save_to_dataset_disabled := False,
       save_html := ''<i class='fas fa-save'></i> Save annotations''\<rparr>"

definition disableSaving :: "page \<Rightarrow> page" where
  "disableSaving p = p\<lparr>save_disabled := True, save_to_dataset_disabled := True\<rparr>"

definition fieldsExist :: "page \<Rightarrow> bool \<times> page" where
  "fieldsExist p =
     (if length (annotation_fields_global p) < 1 then (False, p\<lparr>toggle_disabled := True\<rparr>)
      else (True, p\<lparr>toggle_disabled := False\<rparr>))"

text \<open>\<open>getRelativeURL\<close>: \<^verbatim>\<open>!root\<close> holds for a missing attribute and for an empty one.\<close>

definition getRelativeURL :: "string \<Rightarrow> page \<Rightarrow> string" where
  "getRelativeURL endpoint p =
     (let root = (case data_url_root p of
                    None \<Rightarrow> ''/''
                  | Some r \<Rightarrow> if r = '''' then ''/'' else r)
      in root @ endpoint)"

text \<open>\<open>parseAnnotationFields\<close>: the warning line is cleared first.\<close>

definition parseAnnotationFields :: "page \<Rightarrow> (string + schema) \<times> page" where
  "parseAnnotationFields p = (parse_result (original_columns p) (editor p), warnEditor '''' p)"


section \<open>Saving the schema\<close>

text \<open>
  The guard of \<open>saveAnnotationFields\<close> reads the property \<^verbatim>\<open>length\<close> of the schema, a
  plain object keyed by field ids: the definition of the field with the id
  \<^verbatim>\<open>"length"\<close> when the editor has one, \<^verbatim>\<open>undefined\<close> otherwise.
\<close>

definition length_property :: "schema \<Rightarrow> field_def option" where
  "length_property annotation_fields = map_of annotation_fields ''length''"

datatype js_number = NaN | Finite int

text \<open>
  The operand of \<^verbatim>\<open><\<close> as a number: \<^verbatim>\<open>undefined\<close> is NaN, and a field definition is
  first the string \<^verbatim>\<open>"[object Object]"\<close>, which is no number: NaN as well.
\<close>

definition to_number :: "field_def option \<Rightarrow> js_number" where
  "to_number v = (case v of None \<Rightarrow> NaN | Some object \<Rightarrow> NaN)"

text \<open>\<^verbatim>\<open>a < b\<close> on numbers: false when either is NaN.\<close>

fun js_less :: "js_number \<Rightarrow> js_number \<Rightarrow> bool" where
  "js_less (Finite a) (Finite b) = (a < b)"
| "js_less a b = False"

definition saveAnnotationFields :: "schema \<Rightarrow> page \<Rightarrow> page" where
  "saveAnnotationFields annotation_fields p =
     (if js_less (to_number (length_property annotation_fields)) (Finite 1) then p
      else (let p1 = snd (fieldsExist p)
            in p1\<lparr>requests := requests p1 @
                 [\<lparr>url = getRelativeURL (''explorer/save_annotation_fields/'' @ dataset_key p1) p1,
                   data = Fields annotation_fields\<rparr>]\<rparr>))"

text \<open>\<^verbatim>\<open>response === 'success'\<close>: the response is a string, and that string.\<close>

definition strict_equals_string :: "js_value \<Rightarrow> string \<Rightarrow> bool" where
  "strict_equals_string v s = (case v of JString s' \<Rightarrow> s' = s | _ \<Rightarrow> False)"

text \<open>The callbacks \<open>success\<close> and \<open>error\<close> of the request of \<open>saveAnnotationFields\<close>.\<close>

definition save_fields_success :: "js_value \<Rightarrow> page \<Rightarrow> page" where
  "save_fields_success response p =
     (if strict_equals_string response ''success''
      then p\<lparr>editor_container_hidden := True, apply_disabled := True\<rparr>
      else warnEditor ''Couldn't save annotation fields'' p)"

definition save_fields_error :: "string \<Rightarrow> page \<Rightarrow> page" where
  "save_fields_error error p = warnEditor error p"


section \<open>Reading and saving the annotations\<close>

text \<open>The elements \<^verbatim>\<open>.post-annotation-options > input\<close> of a widget.\<close>

definition options_inputs :: "node \<Rightarrow> node list" where
  "options_inputs ann =
     concat (map (\<lambda>options. filter (\<lambda>k. tag (attrs k) = ''input'') (kids options))
                 (find_class ''post-annotation-options'' ann))"

text \<open>
  The loop of \<open>parseAnnotation\<close> over the checkboxes of a widget. Its body asks the
  widget \<open>ann\<close>, not the checkbox \<open>this\<close> of the round.
\<close>

fun checkbox_loop :: "node \<Rightarrow> node list \<Rightarrow> js_value list \<Rightarrow> js_value list" where
  "checkbox_loop ann [] val = val"
| "checkbox_loop ann (this # rest) val =
     checkbox_loop ann rest (if is_checked [ann] then val @ [jq_val [ann]] else val)"

text \<open>
  \<open>parseAnnotation\<close> of a widget. A class attribute with fewer than four tokens makes
  \<^verbatim>\<open>.replace\<close> be called on \<^verbatim>\<open>undefined\<close>: a TypeError.
\<close>

definition parseAnnotation :: "node \<Rightarrow> js_error + annotation" where
  "parseAnnotation ann =
     (let classes = el_classes (attrs ann)
      in case (js_index classes 1, js_index classes 2, js_index classes 3) of
           (Some c1, Some c2, Some c3) \<Rightarrow>
             (let field_id = js_replace ''field-'' '''' c1;
                  annotation_type = js_replace ''type-'' '''' c2;
                  item_id = js_replace ''item-id-'' '''' c3;
                  author = ''Jan'';
                  label = jq_text (find_class ''annotation-label'' ann);
                  val =
                    (if annotation_type = ''text'' \<or> annotation_type = ''textarea''
                     then jq_val (find_class ''post-annotation-input'' ann)
                     else if annotation_type = ''dropdown''
                     then jq_val (find_class ''post-annotation-options'' ann)
                     else if annotation_type = ''checkbox''
                     then (let val = checkbox_loop ann (options_inputs ann) []
                           in if not_length_gt_0 val then JUndefined else JArray val)
                     else JUndefined)
              in Inr \<lparr>field_id = field_id, item_id = item_id, label = label,
                       ann_type = annotation_type, ann_value = val, author = author,
                       by_processor = False\<rparr>)
         | _ \<Rightarrow> Inl TypeError)"

definition widgets :: "post \<Rightarrow> node list" where
  "widgets li = filter (has_class ''post-annotation'') (post_annotations li)"

fun widgets_loop :: "node list \<Rightarrow> annotation list \<Rightarrow> js_error + annotation list" where
  "widgets_loop [] anns = Inr anns"
| "widgets_loop (w # ws) anns =
     (case parseAnnotation w of
        Inl e \<Rightarrow> Inl e
      | Inr annotation \<Rightarrow> widgets_loop ws (anns @ [annotation]))"

fun posts_loop :: "post list \<Rightarrow> annotation list \<Rightarrow> js_error + annotation list" where
  "posts_loop [] anns = Inr anns"
| "posts_loop (li # lis) anns =
     (case widgets_loop (widgets li) anns of
        Inl e \<Rightarrow> Inl e
      | Inr anns1 \<Rightarrow> posts_loop lis anns1)"

text \<open>
  \<open>saveAnnotations\<close>: an exception of the collecting loop leaves the function before
  it has changed the page or sent anything.
\<close>

definition saveAnnotations :: "page \<Rightarrow> js_error + page" where
  "saveAnnotations p =
     (case posts_loop (posts p) [] of
        Inl e \<Rightarrow> Inl e
      | Inr anns \<Rightarrow>
          (let p1 = p\<lparr>save_html := ''<i class='fas fa-circle-notch spinner'></i> Saving annotations''\<rparr>;
               p2 = disableSaving p1
           in Inr (p2\<lparr>requests := requests p2 @
                      [\<lparr>url = getRelativeURL (''explorer/save_annotations/'' @ dataset_key p) p2,
                        data = Annotations anns\<rparr>]\<rparr>)))"

text \<open>The callbacks \<open>success\<close> and \<open>error\<close> of the request of \<open>saveAnnotations\<close>.\<close>

definition save_annotations_success :: "js_value \<Rightarrow> page \<Rightarrow> page" where
  "save_annotations_success response p =
     (if strict_equals_string response ''success''
      then (let p1 = enableSaving p;
                p2 = p1\<lparr>save_html := ''<i class='fas fa-save'></i> Annotations saved''\<rparr>
            in p2\<lparr>save_disabled := True\<rparr>)
      else (let p1 = enableSaving p;
                p2 = p1\<lparr>save_html := ''<i class='fas fa-save'></i> Save annotations''\<rparr>;
                p3 = p2\<lparr>alerts := alerts p2 @ [''Could't save annotations'']\<rparr>
            in p3\<lparr>save_disabled := False\<rparr>))"

definition save_annotations_error :: "page \<Rightarrow> page" where
  "save_annotations_error p =
     (let p1 = enableSaving p;
          p2 = p1\<lparr>save_html := ''<i class='fas fa-save'></i> Save annotations''\<rparr>
      in p2\<lparr>save_disabled := False\<rparr>)"

text \<open>
  The handlers of \<open>init\<close> that start a save: the click on \<^verbatim>\<open>#save-annotations\<close>, the
  click on a pagination link, and the timer of ten seconds. An exception of
  \<open>saveAnnotations\<close> ends the handler.
\<close>

datatype save_trigger = ManualClick | PaginationClick | TimerTick

definition run_save :: "page \<Rightarrow> page" where
  "run_save p = (case saveAnnotations p of Inl e \<Rightarrow> p | Inr p' \<Rightarrow> p')"

fun trigger :: "save_trigger \<Rightarrow> page \<Rightarrow> page" where
  "trigger ManualClick p = (if \<not> save_disabled p then run_save p else p)"
| "trigger PaginationClick p = (if \<not> save_disabled p then run_save p else p)"
| "trigger TimerTick p = (if \<not> save_disabled p \<and> edits_made p then run_save p else p)"

text \<open>
  The handler of a key pressed or a click in a widget: saving is enabled and
  \<open>edits_made\<close> is set. Nothing ever resets \<open>edits_made\<close>.
\<close>

definition widget_edited :: "page \<Rightarrow> page" where
  "widget_edited p = (enableSaving p)\<lparr>edits_made := True\<rparr>"


section \<open>Applying the schema to the items\<close>

text \<open>\<^verbatim>\<open>$("." + c)\<close>: the widgets of the page with the class \<open>c\<close>, in document order.\<close>

definition page_widgets :: "string \<Rightarrow> post list \<Rightarrow> node list" where
  "page_widgets c lis = concat (map (\<lambda>li. filter (has_class c) (post_annotations li)) lis)"

definition update_widgets :: "string \<Rightarrow> (post \<Rightarrow> node \<Rightarrow> node) \<Rightarrow> post list \<Rightarrow> post list" where
  "update_widgets c f lis =
     map (\<lambda>li. li\<lparr>post_annotations :=
                   map (\<lambda>w. if has_class c w then f li w else w) (post_annotations li)\<rparr>) lis"

text \<open>\<^verbatim>\<open>$("." + c).remove()\<close>.\<close>

definition remove_widgets :: "string \<Rightarrow> post list \<Rightarrow> post list" where
  "remove_widgets c lis =
     map (\<lambda>li. li\<lparr>post_annotations := filter (\<lambda>w. \<not> has_class c w) (post_annotations li)\<rparr>) lis"

text \<open>The widgets of the first item, which the code takes as the state of all items.\<close>

definition first_post_widgets :: "post list \<Rightarrow> node list" where
  "first_post_widgets lis = (case lis of [] \<Rightarrow> [] | li # _ \<Rightarrow> widgets li)"

fun added_fields_loop :: "node list \<Rightarrow> string option list \<Rightarrow> string option list" where
  "added_fields_loop [] added_fields = added_fields"
| "added_fields_loop (w # ws) added_fields =
     (let cls = js_index (el_classes (attrs w)) 1
      in added_fields_loop ws (if cls \<notin> set added_fields then added_fields @ [cls] else added_fields))"

text \<open>The labels of the widgets of a field follow the label of the schema.\<close>

definition edit_labels :: "string \<Rightarrow> string \<Rightarrow> post list \<Rightarrow> post list" where
  "edit_labels input_id input_label lis =
     (let label_span = concat (map (children_class ''annotation-label'') (page_widgets input_id lis));
          label = jq_text (take 1 label_span)
      in if label \<noteq> input_label
         then update_widgets input_id
                (\<lambda>li w. Node (attrs w)
                   (map (\<lambda>k. if has_class ''annotation-label'' k then set_text input_label k else k)
                        (kids w))) lis
         else lis)"

text \<open>The last class of the first widget of the field.\<close>

definition old_type :: "string \<Rightarrow> post list \<Rightarrow> string option" where
  "old_type input_id lis =
     (case page_widgets input_id lis of
        [] \<Rightarrow> None
      | w # _ \<Rightarrow> js_at_last (el_classes (attrs w)))"

text \<open>
  A text input becomes a textarea through markup: the old text is joined between the
  tags \<^verbatim>\<open><textarea ...>\<close> and \<^verbatim>\<open></textarea>\<close> and the browser parses the result, so a
  character reference in the text is decoded. The model decodes the references
  \<^verbatim>\<open>&amp;\<close>, \<^verbatim>\<open>&lt;\<close>, \<^verbatim>\<open>&gt;\<close> and \<^verbatim>\<open>&quot;\<close>; it leaves every other reference (the
  other names, the numeric ones, those without semicolon) and any tag inside the
  text, also a closing \<^verbatim>\<open></textarea>\<close>, as written, where a browser decodes or ends
  the text. \<open>character_reference\<close> reads the text after an
  ampersand and gives the character and the length of the name read.
\<close>

definition character_reference :: "string \<Rightarrow> (char \<times> nat) option" where
  "character_reference cs =
     (if take 4 cs = ''amp;'' then Some (CHR ''&'', 4)
      else if take 3 cs = ''lt;'' then Some (CHR ''<'', 3)
      else if take 3 cs = ''gt;'' then Some (CHR ''>'', 3)
      else if take 5 cs = ''quot;'' then Some (CHR 0x22, 5)
      else None)"

function textarea_text :: "string \<Rightarrow> string" where
  "textarea_text [] = []"
| "textarea_text (c # cs) =
     (if c = CHR ''&''
      then (case character_reference cs of
              Some (d, n) \<Rightarrow> d # textarea_text (drop n cs)
            | None \<Rightarrow> c # textarea_text cs)
      else c # textarea_text cs)"
  by pat_completeness auto
termination
  by (relation "measure length") auto

text \<open>
  The element that replaces the input \<open>this\<close> of a widget whose field changes between
  the types text and textarea. The other way, from a textarea to a text input, the
  text is set with \<^verbatim>\<open>.val\<close>; the line breaks that a text input drops from its value
  are not modelled.
\<close>

definition converted :: "string \<Rightarrow> string \<Rightarrow> string option \<Rightarrow> node \<Rightarrow> node" where
  "converted field input_type old_input_type this =
     (let add_val = (if length (val_of this) > 0 then val_of this else '''')
      in if input_type = ''text'' \<and> old_input_type = Some ''textarea''
         then Node (element ''input'' '''' [''post-annotation-input'', ''text-'' @ field] add_val '''') []
         else if input_type = ''textarea'' \<and> old_input_type = Some ''text''
         then Node (element ''textarea'' '''' [''post-annotation-input'', ''textarea-'' @ field]
                      (textarea_text add_val) (textarea_text add_val)) []
         else this)"

definition convert_widget :: "string \<Rightarrow> string \<Rightarrow> string option \<Rightarrow> node \<Rightarrow> node" where
  "convert_widget field input_type old_input_type w =
     (let w1 = (if children_class ''post-annotation-input'' w = [] then w
                else if input_type = ''text'' \<and> old_input_type = Some ''textarea''
                then addClass ''text'' (removeClass ''textarea'' w)
                else if input_type = ''textarea'' \<and> old_input_type = Some ''text''
                then addClass ''textarea'' (removeClass ''text'' w)
                else w)
      in Node (attrs w1)
           (map (\<lambda>k. if has_class ''post-annotation-input'' k
                      then converted field input_type old_input_type k else k)
                (kids w1)))"


subsection \<open>The options of a dropdown or checkbox field that keeps its type\<close>

definition on_descendants :: "(node \<Rightarrow> node) \<Rightarrow> node \<Rightarrow> node" where
  "on_descendants f n = Node (attrs n) (map (transform f) (kids n))"

text \<open>The id of an item: what follows \<^verbatim>\<open>post-\<close> in the id of its \<^verbatim>\<open>li\<close>.\<close>

definition post_id_of :: "post \<Rightarrow> string option" where
  "post_id_of li = js_index (js_split ''post-'' (li_id li)) 1"

text \<open>The elements appended to an option list for a new option.\<close>

definition new_option :: "string \<Rightarrow> post \<Rightarrow> string \<Rightarrow> string \<Rightarrow> node list" where
  "new_option input_type li option_id new_label =
     (let post_option_id = string_of (post_id_of li) @ ''-'' @ option_id
      in if input_type = ''dropdown''
         then [Node (element ''option'' (''option-'' @ post_option_id)
                       [''post-annotation-input'', ''option-'' @ option_id] new_label new_label) []]
         else if input_type = ''checkbox''
         then [Node (element ''input'' (''option-'' @ post_option_id)
                       [''post-annotation-input'', ''option-'' @ option_id] new_label '''') [],
               Node (element ''label'' '''' [] '''' new_label) []]
         else [])"

text \<open>
  Among the children of one element: the value and text of every element of class
  \<open>c\<close> become \<open>new_label\<close>, and so does the text of a \<^verbatim>\<open>label\<close> that follows one
  directly. The flag says that the element before was of class \<open>c\<close>.
\<close>

fun relabel_list :: "string \<Rightarrow> string \<Rightarrow> bool \<Rightarrow> node list \<Rightarrow> node list" where
  "relabel_list c new_label after [] = []"
| "relabel_list c new_label after (n # ns) =
     (let n1 = (if after \<and> tag (attrs n) = ''label'' then set_text new_label n else n);
          n2 = (if has_class c n
                then Node ((attrs n1)\<lparr>el_value := new_label, el_text := new_label\<rparr>) []
                else n1)
      in n2 # relabel_list c new_label (has_class c n) ns)"

text \<open>
  Among the children of one element: every element of class \<open>c\<close> is removed, and so
  is a \<^verbatim>\<open>label\<close> that follows one directly.
\<close>

fun remove_list :: "string \<Rightarrow> bool \<Rightarrow> node list \<Rightarrow> node list" where
  "remove_list c after [] = []"
| "remove_list c after (n # ns) =
     (if has_class c n then remove_list c True ns
      else if after \<and> tag (attrs n) = ''label'' then remove_list c False ns
      else n # remove_list c False ns)"

text \<open>The loop over the options of the field in the schema.\<close>

fun options_loop ::
  "string \<Rightarrow> string \<Rightarrow> (string \<times> string) list \<Rightarrow> post list \<Rightarrow> string list
    \<Rightarrow> post list \<times> string list" where
  "options_loop input_id input_type [] lis valid_options = (lis, valid_options)"
| "options_loop input_id input_type ((option_id, new_label) # options) lis valid_options =
     (let existing_option =
            concat (map (find_class (''option-'' @ option_id)) (take 1 (page_widgets input_id lis)));
          lis1 =
            (if length existing_option = 0
             then update_widgets input_id
                    (\<lambda>li. on_descendants
                       (\<lambda>n. if has_class ''post-annotation-options'' n
                            then Node (attrs n) (kids n @ new_option input_type li option_id new_label)
                            else n)) lis
             else if jq_val (take 1 existing_option) \<noteq> JString new_label
             then update_widgets input_id
                    (\<lambda>li. transform
                       (\<lambda>n. Node (attrs n)
                               (relabel_list (''option-'' @ option_id) new_label False (kids n)))) lis
             else lis)
      in options_loop input_id input_type options lis1 (valid_options @ [''option-'' @ option_id]))"

text \<open>\<^verbatim>\<open>className\<close>: the class tokens joined by spaces.\<close>

fun className :: "string list \<Rightarrow> string" where
  "className [] = []"
| "className [c] = c"
| "className (c # c' # cs) = c @ '' '' @ className (c' # cs)"

text \<open>The options present in the first option list of the field.\<close>

fun present_options_loop :: "node list \<Rightarrow> string option list \<Rightarrow> string option list" where
  "present_options_loop [] present_options = present_options"
| "present_options_loop (this # rest) present_options =
     present_options_loop rest
       (if length (el_id (attrs this)) > 0
        then present_options @
               [js_at_last (js_split '' '' (js_replace '' edited'' '''' (className (el_classes (attrs this)))))]
        else present_options)"

fun remove_options_loop :: "string \<Rightarrow> string list \<Rightarrow> string option list \<Rightarrow> post list \<Rightarrow> post list" where
  "remove_options_loop input_id valid_options [] lis = lis"
| "remove_options_loop input_id valid_options (present # present_options) lis =
     remove_options_loop input_id valid_options present_options
       (if present \<notin> set (map Some valid_options)
        then update_widgets input_id
               (\<lambda>li. transform (\<lambda>n. Node (attrs n) (remove_list (string_of present) False (kids n)))) lis
        else lis)"

definition update_options :: "string \<Rightarrow> string \<Rightarrow> field_def \<Rightarrow> post list \<Rightarrow> post list" where
  "update_options input_id input_type fd lis =
     (let options = (case fd_options fd of None \<Rightarrow> [] | Some os \<Rightarrow> os)
      in case options_loop input_id input_type options lis [] of
           (lis1, valid_options) \<Rightarrow>
             (let option_list =
                    concat (map (find_class ''post-annotation-options'') (page_widgets input_id lis1));
                  present_options =
                    present_options_loop
                      (concat (map (find_class ''post-annotation-input'') (take 1 option_list))) []
              in remove_options_loop input_id valid_options present_options lis1))"

subsection \<open>The loop over the fields of the schema\<close>

fun fields_loop ::
  "schema \<Rightarrow> string option list \<Rightarrow> post list \<Rightarrow> schema \<Rightarrow> post list \<times> schema" where
  "fields_loop [] added_fields lis fields_to_add = (lis, fields_to_add)"
| "fields_loop ((field, fd) # rest) added_fields lis fields_to_add =
     (let input_type = fd_type fd;
          input_label = fd_label fd;
          input_id = ''field-'' @ field
      in if Some input_id \<in> set added_fields
         then (let lis1 = edit_labels input_id input_label lis;
                   old_input_type = old_type input_id lis1
               in if Some input_type \<noteq> old_input_type
                  then (if input_type \<in> set [''textarea'', ''text'']
                           \<and> old_input_type \<in> set [Some ''textarea'', Some ''text'']
                        then fields_loop rest added_fields
                               (update_widgets input_id
                                  (\<lambda>li. convert_widget field input_type old_input_type) lis1)
                               fields_to_add
                        else fields_loop rest added_fields (remove_widgets input_id lis1)
                               (js_assign field fd fields_to_add))
                  else if input_type = ''checkbox'' \<or> input_type = ''dropdown''
                  then fields_loop rest added_fields (update_options input_id input_type fd lis1)
                         fields_to_add
                  else fields_loop rest added_fields lis1 fields_to_add)
         else fields_loop rest added_fields lis (js_assign field fd fields_to_add))"


subsection \<open>New widgets\<close>

text \<open>
  The widget that the markup built for a field to add gives in the item \<open>post_id\<close>.
  The labels, which the code joins into markup and into \<^verbatim>\<open>value='...'\<close> attributes, are
  taken to hold no markup and no apostrophe. The options of a dropdown all
  get the class \<^verbatim>\<open>option-\<close> and the id \<^verbatim>\<open>option-\<close>: the variable \<open>option_id\<close> read there
  is the empty one declared before the loop, not the one of the inner loop.
\<close>

definition dropdown_options :: "(string \<times> string) list \<Rightarrow> node list" where
  "dropdown_options options =
     (let option_id = ''''
      in map (\<lambda>(inner_option_id, option_label).
                Node (element ''option'' (''option-'' @ option_id)
                        [''post-annotation-input'', ''option-'' @ option_id] option_label option_label) [])
             options)"

definition checkbox_options :: "string \<Rightarrow> (string \<times> string) list \<Rightarrow> node list" where
  "checkbox_options post_id options =
     concat (map (\<lambda>(option_id, option_label).
                    [Node (element ''input'' (''option-'' @ post_id @ ''-'' @ option_id)
                             [''post-annotation-input'', ''option-'' @ option_id] option_label '''') [],
                     Node (element ''label'' '''' [] '''' option_label) []])
                 options)"

definition new_widget :: "string \<Rightarrow> field_def \<Rightarrow> string \<Rightarrow> node" where
  "new_widget add_field fd post_id =
     (let input_type = fd_type fd;
          input_id = ''field-'' @ add_field;
          input_label = fd_label fd;
          options = (case fd_options fd of None \<Rightarrow> [] | Some os \<Rightarrow> os);
          annotation_label = Node (element ''label'' '''' [''annotation-label''] '''' input_label) [];
          input =
            (if input_type = ''text''
             then [Node (element ''input'' '''' [''post-annotation-input'', ''text-'' @ add_field]
                           '''' '''') []]
             else if input_type = ''textarea''
             then [Node (element ''textarea'' ''''
                           [''post-annotation-input'', ''textarea-'' @ add_field] '''' '''') []]
             else if input_type = ''dropdown''
             then [Node (element ''select'' (''options-'' @ add_field @ ''-'' @ post_id)
                           [''post-annotation-options'', ''select-'' @ add_field] '''' '''')
                     (Node (element ''option'' '''' [''post-annotation-input''] '''' '''') []
                      # dropdown_options options)]
             else if input_type = ''checkbox''
             then [Node (element ''div'' ''''
                           [''post-annotation-options'', ''checkboxes-'' @ add_field] '''' '''')
                     (checkbox_options post_id options)]
             else [])
      in Node (element ''div'' '''' [''post-annotation'', input_id, input_type] '''' '''')
           (annotation_label # input))"

fun add_loop :: "schema \<Rightarrow> post list \<Rightarrow> post list" where
  "add_loop [] lis = lis"
| "add_loop ((add_field, fd) # fields_to_add) lis =
     add_loop fields_to_add
       (map (\<lambda>li. li\<lparr>post_annotations :=
                      post_annotations li @ [new_widget add_field fd (string_of (post_id_of li))]\<rparr>)
            lis)"

subsection \<open>Widgets of fields that the schema no longer has\<close>

fun present_annotations_loop :: "string list \<Rightarrow> node list \<Rightarrow> post list \<Rightarrow> post list" where
  "present_annotations_loop valid_fields [] lis = lis"
| "present_annotations_loop valid_fields (w # present_annotations) lis =
     (let present_id = js_index (el_classes (attrs w)) 1
      in present_annotations_loop valid_fields present_annotations
           (if present_id \<notin> set (map Some valid_fields)
            then remove_widgets (string_of present_id) lis
            else lis))"

subsection \<open>\<open>applyAnnotationFields\<close>\<close>

definition applyAnnotationFields :: "page \<Rightarrow> page" where
  "applyAnnotationFields p =
     (case parseAnnotationFields p of
        (Inl warning, p1) \<Rightarrow> warnEditor warning p1
      | (Inr annotation_fields, p1) \<Rightarrow>
          (let p2 = p1\<lparr>apply_html := ''<i class='fas fa-circle-notch spinner'></i> Applying''\<rparr>;
               p3 = warnEditor '''' p2;
               p4 = saveAnnotationFields annotation_fields p3;
               added_fields = added_fields_loop (first_post_widgets (posts p4)) [];
               (lis1, fields_to_add) = fields_loop annotation_fields added_fields (posts p4) [];
               lis2 = add_loop fields_to_add lis1;
               valid_fields = map (\<lambda>(f, fd). ''field-'' @ f) annotation_fields;
               lis3 = present_annotations_loop valid_fields (first_post_widgets lis2) lis2;
               p5 = p4\<lparr>posts := lis3\<rparr>;
               p6 = (if length (first_post_widgets lis3) < 1
                     then (hideAnnotations p5)\<lparr>toggle_disabled := True\<rparr>
                     else (showAnnotations p5)\<lparr>toggle_disabled := False\<rparr>)
           in p6\<lparr>apply_html := ''<i class='fas fa-check'></i> Apply''\<rparr>))"


section \<open>The properties stated of the code\<close>

subsection \<open>Validation rules of the schema editor\<close>

definition norm_label :: "annotation_field \<Rightarrow> string" where
  "norm_label f = replace_spaces (label_val f)"

definition option_vals :: "annotation_field \<Rightarrow> string list" where
  "option_vals f = map input_val (option_fields f)"

definition known_type :: "string \<Rightarrow> bool" where
  "known_type t = (t \<in> set [''text'', ''textarea'', ''dropdown'', ''checkbox''])"

definition option_bearing :: "string \<Rightarrow> bool" where
  "option_bearing t = (t = ''dropdown'' \<or> t = ''checkbox'')"

text \<open>
  The rule on options as it was stated: some option input holds a text that is not
  empty and that no other option input of the field holds.
\<close>

definition unique_nonempty_option :: "annotation_field \<Rightarrow> bool" where
  "unique_nonempty_option f =
     (\<exists>v \<in> set (option_vals f). v \<noteq> [] \<and> count_list (option_vals f) v = 1)"

definition fails_stated_rule :: "string list \<Rightarrow> string list \<Rightarrow> annotation_field \<Rightarrow> bool" where
  "fails_stated_rule columns labels_before f =
     (label_val f = [] \<or> norm_label f \<in> set labels_before \<or> norm_label f \<in> set columns
      \<or> (option_bearing (type_val f) \<and> \<not> unique_nonempty_option f))"

text \<open>
  The rule on options that the code checks: some option input is not empty, and no
  text that is not empty stands in two option inputs of the field.
\<close>

definition options_ok :: "annotation_field \<Rightarrow> bool" where
  "options_ok f =
     ((\<exists>v \<in> set (option_vals f). v \<noteq> [])
      \<and> distinct (filter (\<lambda>v. v \<noteq> []) (option_vals f)))"

definition fails_rule :: "string list \<Rightarrow> string list \<Rightarrow> annotation_field \<Rightarrow> bool" where
  "fails_rule columns labels_before f =
     (label_val f = [] \<or> norm_label f \<in> set labels_before \<or> norm_label f \<in> set columns
      \<or> (option_bearing (type_val f) \<and> \<not> options_ok f))"

text \<open>The same with the test of the code for a field with options: any other type.\<close>

definition field_rejected :: "string list \<Rightarrow> string list \<Rightarrow> annotation_field \<Rightarrow> bool" where
  "field_rejected columns labels_before f =
     (norm_label f = [] \<or> norm_label f \<in> set labels_before \<or> norm_label f \<in> set columns
      \<or> (type_val f \<noteq> ''text'' \<and> type_val f \<noteq> ''textarea'' \<and> \<not> options_ok f))"

text \<open>The labels, as the code compares them, of the fields before position \<open>i\<close>.\<close>

definition labels_before :: "annotation_field list \<Rightarrow> nat \<Rightarrow> string list" where
  "labels_before rows i = map norm_label (take i rows)"

text \<open>
  The failures of one field, in the order of its checks, each with its warning: of
  the label at most one (no label, else the label of a field before, else a column
  name); then, unless the type is text or textarea, one warning for every option
  text that repeats an option text before it, and the warning of the missing
  options when no option input holds text. They are written from the rules, not
  from the loops.
\<close>

definition label_failure :: "string list \<Rightarrow> string list \<Rightarrow> string \<Rightarrow> string list" where
  "label_failure columns before l =
     (if l = [] then [''Field labels can't be empty'']
      else if l \<in> set before then [''Field labels must be unique'']
      else if l \<in> set columns
      then [''Field label '' @ l @ '' is already present as a dataset item, please rename.'']
      else [])"

definition option_failures :: "annotation_field \<Rightarrow> string list" where
  "option_failures f =
     (let texts = filter (\<lambda>v. v \<noteq> []) (option_vals f)
      in replicate (length texts - length (remdups texts)) ''Fields must be unique''
         @ (if texts = [] then [''At least one field must be added''] else []))"

definition field_failures :: "string list \<Rightarrow> string list \<Rightarrow> annotation_field \<Rightarrow> string list" where
  "field_failures columns before f =
     label_failure columns before (norm_label f)
     @ (if type_val f = ''text'' \<or> type_val f = ''textarea'' then [] else option_failures f)"

text \<open>The failures of all fields of the editor, field by field.\<close>

definition failures :: "string list \<Rightarrow> annotation_field list \<Rightarrow> string list" where
  "failures columns rows =
     concat (map (\<lambda>i. field_failures columns (labels_before rows i) (rows ! i)) [0..<length rows])"

subsection \<open>Example pages\<close>

definition example_page :: page where
  "example_page =
     \<lparr>original_columns = [''id'', ''body''], annotation_fields_global = [], editor = [],
      input_warning = '''', input_warning_hidden = True,
      apply_html = ''<i class='fas fa-check'></i> Apply'', apply_disabled = True,
      editor_container_hidden = False,
      toggle_disabled = True, toggle_shown = False,
      toggle_html = ''<i class='fas fa-eye'></i> Show annotations'',
      save_html = ''<i class='fas fa-save'></i> Save annotations'', save_disabled = False,
      save_to_dataset_disabled = False,
      posts = [], edits_made = False, dataset_key = ''abc'', data_url_root = None,
      requests = [], alerts = []\<rparr>"

definition text_field :: "string \<Rightarrow> string \<Rightarrow> annotation_field" where
  "text_field i l = \<lparr>elem_id = i, label_val = l, type_val = ''text'', option_fields = []\<rparr>"

definition option_input :: "string \<Rightarrow> string \<Rightarrow> option_field" where
  "option_input i v = \<lparr>input_elem_id = i, input_val = v, delete_option_field = True\<rparr>"

definition dropdown_field :: "string \<Rightarrow> string \<Rightarrow> option_field list \<Rightarrow> annotation_field" where
  "dropdown_field i l os = \<lparr>elem_id = i, label_val = l, type_val = ''dropdown'', option_fields = os\<rparr>"

text \<open>A dropdown whose option \<^verbatim>\<open>A\<close> is entered twice, beside the option \<^verbatim>\<open>B\<close>.\<close>

definition repeated_option_page :: page where
  "repeated_option_page =
     example_page\<lparr>editor :=
       [dropdown_field ''field-f1'' ''Topic''
          [option_input ''input-o1'' ''A'', option_input ''input-o2'' ''A'',
           option_input ''input-o3'' ''B'']]\<rparr>"

text \<open>A field without label before a field named as the column \<^verbatim>\<open>id\<close>.\<close>

definition two_failures_page :: page where
  "two_failures_page =
     example_page\<lparr>editor := [text_field ''field-f1'' '''', text_field ''field-f2'' ''id'']\<rparr>"

text \<open>A dropdown without label and without options.\<close>

definition bare_dropdown_page :: page where
  "bare_dropdown_page = example_page\<lparr>editor := [dropdown_field ''field-f1'' '''' []]\<rparr>"

text \<open>Two labels that differ in their white space only, and a label of white space.\<close>

definition spaced_labels_page :: page where
  "spaced_labels_page =
     example_page\<lparr>editor := [text_field ''field-f1'' ''my  label'', text_field ''field-f2'' ''my label'']\<rparr>"

definition blank_label_page :: page where
  "blank_label_page = example_page\<lparr>editor := [text_field ''field-f1'' [CHR 0x20, CHR 0x09, CHR 0x20]]\<rparr>"


text \<open>
  An item that shows one widget with the class tokens \<open>parseAnnotation\<close> reads, and the
  same page with an editor that fails validation.
\<close>

definition item_widget :: "string \<Rightarrow> node" where
  "item_widget v =
     Node (element ''div'' '''' [''post-annotation'', ''field-f1'', ''type-text'', ''item-id-42''] '''' '''')
       [Node (element ''label'' '''' [''annotation-label''] '''' ''Notes'') [],
        Node (element ''input'' '''' [''post-annotation-input'', ''text-f1''] v '''') []]"

definition items_page :: page where
  "items_page =
     example_page\<lparr>posts := [\<lparr>li_id = ''post-42'', post_annotations = [item_widget ''hello'']\<rparr>]\<rparr>"

definition invalid_items_page :: page where
  "invalid_items_page =
     items_page\<lparr>editor := [text_field ''field-f1'' '''', text_field ''field-f2'' ''id'']\<rparr>"

text \<open>
  A checkbox widget with the options \<^verbatim>\<open>{o1: "A", o2: "B"}\<close>, as \<open>applyAnnotationFields\<close>
  lays its options out, under the class tokens \<open>parseAnnotation\<close> reads; the
  arguments say which boxes are checked.
\<close>

definition checkbox_widget :: "bool \<Rightarrow> bool \<Rightarrow> node" where
  "checkbox_widget checked1 checked2 =
     Node (element ''div'' '''' [''post-annotation'', ''field-f1'', ''type-checkbox'', ''item-id-42'']
             '''' '''')
       [Node (element ''label'' '''' [''annotation-label''] '''' ''Choice'') [],
        Node (element ''div'' '''' [''post-annotation-options'', ''checkboxes-f1''] '''' '''')
          [Node ((element ''input'' ''option-42-o1'' [''post-annotation-input'', ''option-o1''] ''A'' '''')
                   \<lparr>el_checked := checked1\<rparr>) [],
           Node (element ''label'' '''' [] '''' ''A'') [],
           Node ((element ''input'' ''option-42-o2'' [''post-annotation-input'', ''option-o2''] ''B'' '''')
                   \<lparr>el_checked := checked2\<rparr>) [],
           Node (element ''label'' '''' [] '''' ''B'') []]]"

text \<open>
  The text a user has typed into the input of a widget, and the texts of the inputs
  of all widgets of a page, item by item.
\<close>

definition type_into :: "string \<Rightarrow> node \<Rightarrow> node" where
  "type_into s w =
     Node (attrs w)
       (map (\<lambda>k. if has_class ''post-annotation-input'' k
                  then Node ((attrs k)\<lparr>el_value := s\<rparr>) (kids k) else k)
            (kids w))"

definition input_values :: "page \<Rightarrow> string list list" where
  "input_values p =
     map (\<lambda>li. map val_of (concat (map (children_class ''post-annotation-input'') (post_annotations li))))
         (posts p)"

text \<open>
  One item whose text widget, built by \<open>applyAnnotationFields\<close> itself, holds the text
  \<^verbatim>\<open>a&amp;b\<close>, and an editor that turns the field into a textarea; the same with the
  field turned from a textarea into a text input.
\<close>

definition notes_field :: "string \<Rightarrow> field_def" where
  "notes_field t = \<lparr>fd_type = t, fd_label = ''Notes'', fd_options = None\<rparr>"

definition ampersand_page :: page where
  "ampersand_page =
     example_page
       \<lparr>editor := [\<lparr>elem_id = ''field-f1'', label_val = ''Notes'', type_val = ''textarea'',
                    option_fields = []\<rparr>],
        posts := [\<lparr>li_id = ''post-42'',
                   post_annotations =
                     [type_into ''a&amp;b'' (new_widget ''f1'' (notes_field ''text'') ''42'')]\<rparr>]\<rparr>"

definition ampersand_back_page :: page where
  "ampersand_back_page =
     example_page
       \<lparr>editor := [text_field ''field-f1'' ''Notes''],
        posts := [\<lparr>li_id = ''post-42'',
                   post_annotations =
                     [type_into ''a&amp;b'' (new_widget ''f1'' (notes_field ''textarea'') ''42'')]\<rparr>]\<rparr>"

text \<open>
  The state of an option group that the stated invariant is about, and the events
  that leave no input empty: a key released in an input that then holds text, and
  any click on a delete control.
\<close>

definition group_ok :: "option_field list \<Rightarrow> bool" where
  "group_ok inputs =
     (empty_inputs inputs \<le> 1 \<and> (length inputs = 1 \<longrightarrow> \<not> delete_option_field (inputs ! 0)))"

fun leaves_text :: "group_event \<Rightarrow> bool" where
  "leaves_text (Keyup el text random) = (text \<noteq> [])"
| "leaves_text (ClickDelete el) = True"

text \<open>
  A user types \<^verbatim>\<open>A\<close> and \<^verbatim>\<open>B\<close> into the options of a new dropdown, empties the
  second input again and then edits the first.
\<close>

definition emptied_input_events :: "group_event list" where
  "emptied_input_events =
     [Keyup 0 ''A'' ''1'', Keyup 1 ''B'' ''2'', Keyup 1 '''' ''3'', Keyup 0 ''A2'' ''4'']"

section \<open>Proofs\<close>

subsection \<open>Parsing the editor\<close>

lemma not_length_gt_0_iff: "not_length_gt_0 xs = (xs = [])"
  by (simp add: not_length_gt_0_def)

lemma replace_runs_Nil_iff: "(replace_runs b s = []) = (s = [] \<or> (b \<and> (\<forall>c \<in> set s. is_space c)))"
  by (induction s arbitrary: b) auto

lemma replace_spaces_Nil_iff: "(replace_spaces s = []) = (s = [])"
  by (simp add: replace_spaces_def replace_runs_Nil_iff)

lemma label_warning_None_iff:
  "(label_warning oc la l = None) = (l \<noteq> [] \<and> l \<notin> set la \<and> l \<notin> set oc)"
  by (simp add: label_warning_def not_length_gt_0_iff)

lemma label_warning_nonempty: "label_warning oc la l = Some w \<Longrightarrow> w \<noteq> []"
  by (auto simp: label_warning_def split: if_splits)

lemma po_noa:
  "fst (snd (parse_options inps opts ol noa w sw)) =
   (noa \<and> \<not> (\<exists>v \<in> set (map input_val inps). v \<noteq> [] \<and> v \<notin> set ol))"
proof (induction inps arbitrary: opts ol noa w sw)
  case Nil
  then show ?case by simp
next
  case (Cons inp inps)
  show ?case
    by (auto simp: Let_def Cons.IH)
qed

lemma po_trace:
  "[] \<notin> set ol \<Longrightarrow> distinct ol \<Longrightarrow>
   \<exists>tr. snd (snd (parse_options inps opts ol noa w sw)) = ((if tr = [] then w else last tr), sw @ tr)
      \<and> set tr \<subseteq> {''Fields must be unique''}
      \<and> (tr \<noteq> []) = (\<not> distinct (ol @ filter (\<lambda>v. v \<noteq> []) (map input_val inps)))"
proof (induction inps arbitrary: opts ol noa w sw)
  case Nil
  then show ?case by simp
next
  case (Cons inp inps)
  let ?v = "input_val inp"
  show ?case
  proof (cases "?v \<notin> set ol \<and> ?v \<noteq> []")
    case True
    then have "[] \<notin> set (ol @ [?v])" "distinct (ol @ [?v])"
      using Cons.prems by auto
    from Cons.IH[OF this, of "opts @ [(js_replace ''input-'' '''' (input_elem_id inp), ?v)]" False w sw]
    obtain tr where "snd (snd (parse_options inps (opts @ [(js_replace ''input-'' '''' (input_elem_id inp), ?v)])
          (ol @ [?v]) False w sw)) = ((if tr = [] then w else last tr), sw @ tr)"
      "set tr \<subseteq> {''Fields must be unique''}"
      "(tr \<noteq> []) = (\<not> distinct ((ol @ [?v]) @ filter (\<lambda>v. v \<noteq> []) (map input_val inps)))"
      by blast
    with True show ?thesis by (intro exI[of _ tr]) (simp add: Let_def)
  next
    case False
    show ?thesis
    proof (cases "?v \<in> set ol")
      case True
      then have ne: "?v \<noteq> []" using Cons.prems by auto
      from Cons.IH[OF Cons.prems, of opts noa "''Fields must be unique''" "sw @ [''Fields must be unique'']"]
      obtain tr where tr: "snd (snd (parse_options inps opts ol noa ''Fields must be unique''
            (sw @ [''Fields must be unique'']))) =
          ((if tr = [] then ''Fields must be unique'' else last tr), (sw @ [''Fields must be unique'']) @ tr)"
        "set tr \<subseteq> {''Fields must be unique''}"
        by blast
      show ?thesis
        using True ne tr
        by (intro exI[of _ "''Fields must be unique'' # tr"]) (simp add: Let_def)
    next
      case F2: False
      with False have e: "?v = []" by simp
      from Cons.IH[OF Cons.prems, of opts noa w sw] F2 e show ?thesis by (simp add: Let_def)
    qed
  qed
qed

lemma card_filter_le: "card (set xs - A) \<le> length xs"
  by (metis card_length card_mono finite_set Diff_subset le_trans List.finite_set)

lemma po_log:
  "[] \<notin> set ol \<Longrightarrow>
   snd (snd (snd (parse_options inps opts ol noa w sw))) =
     sw @ replicate (length (filter (\<lambda>v. v \<noteq> []) (map input_val inps))
                     - card (set (filter (\<lambda>v. v \<noteq> []) (map input_val inps)) - set ol))
            ''Fields must be unique''"
proof (induction inps arbitrary: opts ol noa w sw)
  case Nil
  then show ?case by simp
next
  case (Cons inp inps)
  let ?v = "input_val inp"
  let ?ts = "filter (\<lambda>v. v \<noteq> []) (map input_val inps)"
  show ?case
  proof (cases "?v \<notin> set ol \<and> ?v \<noteq> []")
    case True
    then have ne: "[] \<notin> set (ol @ [?v])" using Cons.prems by auto
    have "set (?v # ?ts) - set ol = insert ?v (set ?ts - set (ol @ [?v]))"
      using True by auto
    moreover have "?v \<notin> set ?ts - set (ol @ [?v])" by auto
    ultimately have c: "card (set (?v # ?ts) - set ol) = Suc (card (set ?ts - set (ol @ [?v])))"
      by (simp del: set_append)
    show ?thesis
      using True Cons.IH[OF ne] c by (simp add: Let_def del: set_append)
  next
    case False
    show ?thesis
    proof (cases "?v \<in> set ol")
      case True
      then have ne: "?v \<noteq> []" using Cons.prems by auto
      have s: "set (?v # ?ts) - set ol = set ?ts - set ol" using True by auto
      have le: "card (set ?ts - set ol) \<le> length ?ts" by (rule card_filter_le)
      have "Suc (length ?ts) - card (set ?ts - set ol) = Suc (length ?ts - card (set ?ts - set ol))"
        using le by simp
      then show ?thesis
        using True ne Cons.IH[OF Cons.prems] s
        by (simp add: Let_def)
    next
      case F2: False
      with False have e: "?v = []" by simp
      show ?thesis using F2 e Cons.IH[OF Cons.prems] by (simp add: Let_def)
    qed
  qed
qed

lemma po_log_start:
  "snd (snd (snd (parse_options (option_fields f) [] [] True w sw))) =
     sw @ replicate (length (filter (\<lambda>v. v \<noteq> []) (option_vals f))
                     - length (remdups (filter (\<lambda>v. v \<noteq> []) (option_vals f))))
            ''Fields must be unique''"
  using po_log[of "[]" "option_fields f" "[]" True w sw]
  by (simp add: option_vals_def length_remdups_card_conv)

lemma label_failure_warning:
  "label_failure oc la l = (case label_warning oc la l of None \<Rightarrow> [] | Some x \<Rightarrow> [x])"
  by (simp add: label_failure_def label_warning_def not_length_gt_0_def)

lemma upt_0_Suc: "[0..<Suc n] = 0 # map Suc [0..<n]"
  by (simp add: upt_conv_Cons map_Suc_upt del: upt_Suc)

lemma set_js_assign: "set (js_assign k v kvs) \<subseteq> insert (k, v) (set kvs)"
  by (induction kvs) (auto split: if_splits)

lemma replace_runs_idem:
  "replace_runs False (replace_runs b s) = replace_runs b s \<and>
   replace_runs True (replace_runs True s) = replace_runs True s"
  by (induction s arbitrary: b) (auto simp: is_space_def)

lemma replace_spaces_idem: "replace_spaces (replace_spaces s) = replace_spaces s"
  by (simp add: replace_spaces_def replace_runs_idem)

lemma parse_fields_step:
  "\<exists>af' w' tr. parse_fields oc (f # fs) af w la sw = parse_fields oc fs af' w' (la @ [norm_label f]) (sw @ tr)
     \<and> w' = (if tr = [] then w else last tr) \<and> [] \<notin> set tr
     \<and> (tr \<noteq> []) = field_rejected oc la f
     \<and> (\<forall>x. label_warning oc la (norm_label f) = Some x \<longrightarrow> x \<in> set tr)
     \<and> (\<forall>e \<in> set af'. e \<in> set af \<or> fd_label (snd e) = norm_label f)
     \<and> (\<exists>rest. tr = (case label_warning oc la (norm_label f) of None \<Rightarrow> [] | Some x \<Rightarrow> [x]) @ rest
           \<and> set rest \<subseteq> {''Fields must be unique'', ''At least one field must be added''})
     \<and> tr = field_failures oc la f"
proof -
  let ?l = "norm_label f"
  let ?lt = "case label_warning oc la ?l of None \<Rightarrow> [] | Some x \<Rightarrow> [x]"
  let ?w1 = "if ?lt = [] then w else last ?lt"
  let ?key = "string_of (js_index (js_split ''-'' (elem_id f)) 1)"
  have lt_ne: "[] \<notin> set ?lt"
    using label_warning_nonempty[of oc la ?l "[]"] by (auto split: option.splits)
  have lt_iff: "(?lt \<noteq> []) = (?l = [] \<or> ?l \<in> set la \<or> ?l \<in> set oc)"
    using label_warning_None_iff[of oc la ?l] by (auto split: option.splits)
  have lw: "(case label_warning oc la ?l of None \<Rightarrow> (w, sw) | Some x \<Rightarrow> (x, sw @ [x])) = (?w1, sw @ ?lt)"
    by (simp split: option.splits)
  show ?thesis
  proof (cases "type_val f = ''text'' \<or> type_val f = ''textarea''")
    case True
    have "parse_fields oc (f # fs) af w la sw =
          parse_fields oc fs (js_assign ?key
             \<lparr>fd_type = type_val f, fd_label = ?l, fd_options = None\<rparr> af) ?w1 (la @ [?l]) (sw @ ?lt)"
      using True by (simp add: Let_def norm_label_def[symmetric] lw del: js_split.simps)
    moreover have "(?lt \<noteq> []) = field_rejected oc la f"
      using True lt_iff by (auto simp: field_rejected_def)
    moreover have "\<forall>e \<in> set (js_assign ?key
             \<lparr>fd_type = type_val f, fd_label = ?l, fd_options = None\<rparr> af).
             e \<in> set af \<or> fd_label (snd e) = ?l"
      using set_js_assign[of ?key "\<lparr>fd_type = type_val f, fd_label = ?l, fd_options = None\<rparr>" af]
      by auto
    moreover have "\<exists>rest. ?lt = ?lt @ rest
           \<and> set rest \<subseteq> {''Fields must be unique'', ''At least one field must be added''}"
      by (intro exI[of _ "[]"]) simp
    moreover have "?lt = field_failures oc la f"
      using True by (simp add: field_failures_def label_failure_warning)
    ultimately show ?thesis using lt_ne
      by (intro exI[of _ "js_assign ?key
             \<lparr>fd_type = type_val f, fd_label = ?l, fd_options = None\<rparr> af"] exI[of _ ?w1] exI[of _ ?lt])
         (auto split: option.splits)
  next
    case False
    obtain options noa w2 sw2 where po: "parse_options (option_fields f) [] [] True ?w1 (sw @ ?lt) = (options, noa, w2, sw2)"
      by (metis prod_cases4)
    from po_trace[of "[]" "option_fields f" "[]" True ?w1 "sw @ ?lt"] po
    obtain tr where tr: "w2 = (if tr = [] then ?w1 else last tr)" "sw2 = (sw @ ?lt) @ tr"
      "set tr \<subseteq> {''Fields must be unique''}"
      "(tr \<noteq> []) = (\<not> distinct (filter (\<lambda>v. v \<noteq> []) (option_vals f)))"
      by (auto simp: option_vals_def)
    have noa: "noa = (\<not> (\<exists>v \<in> set (option_vals f). v \<noteq> []))"
      using po_noa[of "option_fields f" "[]" "[]" True ?w1 "sw @ ?lt"] po
      by (simp add: option_vals_def)
    let ?nt = "if noa then [''At least one field must be added''] else []"
    let ?tr = "?lt @ tr @ ?nt"
    let ?w3 = "if noa then ''At least one field must be added'' else w2"
    let ?af = "if length options > 0
               then js_assign ?key
                      \<lparr>fd_type = type_val f, fd_label = replace_spaces ?l, fd_options = Some options\<rparr> af
               else af"
    have eq: "parse_fields oc (f # fs) af w la sw = parse_fields oc fs ?af ?w3 (la @ [?l]) (sw @ ?tr)"
      using False po tr(2)
      by (simp add: Let_def norm_label_def[symmetric] lw del: js_split.simps)
    have w3: "?w3 = (if ?tr = [] then w else last ?tr)"
      using tr(1) by (auto split: option.splits)
    have ne: "[] \<notin> set ?tr"
      using lt_ne tr(3) by (auto split: option.splits)
    have rej: "(?tr \<noteq> []) = field_rejected oc la f"
      using False lt_iff tr(4) noa by (auto simp: field_rejected_def options_ok_def split: option.splits)
    have lab: "\<forall>x. label_warning oc la ?l = Some x \<longrightarrow> x \<in> set ?tr"
      by (auto split: option.splits)
    have sto: "\<forall>e \<in> set ?af. e \<in> set af \<or> fd_label (snd e) = ?l"
      using set_js_assign[of ?key "\<lparr>fd_type = type_val f, fd_label = replace_spaces ?l,
          fd_options = Some options\<rparr>" af]
      by (auto simp: norm_label_def replace_spaces_idem)
    have shp: "\<exists>rest. ?tr = ?lt @ rest
           \<and> set rest \<subseteq> {''Fields must be unique'', ''At least one field must be added''}"
      using tr(3) by (intro exI[of _ "tr @ ?nt"]) auto
    have "sw2 = (sw @ ?lt) @ replicate (length (filter (\<lambda>v. v \<noteq> []) (option_vals f))
                     - length (remdups (filter (\<lambda>v. v \<noteq> []) (option_vals f))))
            ''Fields must be unique''"
      using po_log_start[of f ?w1 "sw @ ?lt"] po by simp
    then have trr: "tr = replicate (length (filter (\<lambda>v. v \<noteq> []) (option_vals f))
                     - length (remdups (filter (\<lambda>v. v \<noteq> []) (option_vals f))))
            ''Fields must be unique''"
      using tr(2) by simp
    have noa': "noa = (filter (\<lambda>v. v \<noteq> []) (option_vals f) = [])"
      using noa by (auto simp: filter_empty_conv)
    have ff: "?tr = field_failures oc la f"
      using False trr noa'
      by (simp add: field_failures_def option_failures_def label_failure_warning Let_def)
    show ?thesis
      using eq w3 ne rej lab sto shp ff by blast
  qed
qed

lemma ex_less_Suc_split: "(\<exists>i<Suc n. P i) = (P 0 \<or> (\<exists>i<n. P (Suc i)))"
  by (metis less_Suc_eq_0_disj Suc_less_eq zero_less_Suc)

lemma all_less_Suc_split: "(\<forall>i<Suc n. P i) = (P 0 \<and> (\<forall>i<n. P (Suc i)))"
  by (metis less_Suc_eq_0_disj Suc_less_eq zero_less_Suc)

lemma parse_fields_trace:
  "\<exists>af' tr. parse_fields oc fs af w la sw = (af', (if tr = [] then w else last tr), sw @ tr)
     \<and> [] \<notin> set tr
     \<and> (tr \<noteq> []) = (\<exists>i<length fs. field_rejected oc (la @ map norm_label (take i fs)) (fs ! i))
     \<and> (\<forall>i<length fs. \<forall>x. label_warning oc (la @ map norm_label (take i fs)) (norm_label (fs ! i)) = Some x
            \<longrightarrow> x \<in> set tr)
     \<and> (\<forall>e \<in> set af'. e \<in> set af \<or> (\<exists>f \<in> set fs. fd_label (snd e) = norm_label f))"
proof (induction fs arbitrary: af w la sw)
  case Nil
  show ?case by (intro exI[of _ af] exI[of _ "[]"]) simp
next
  case (Cons f fs)
  from parse_fields_step[of oc f fs af w la sw]
  obtain af1 w1 tr1 where s1:
    "parse_fields oc (f # fs) af w la sw = parse_fields oc fs af1 w1 (la @ [norm_label f]) (sw @ tr1)"
    "w1 = (if tr1 = [] then w else last tr1)" "[] \<notin> set tr1"
    "(tr1 \<noteq> []) = field_rejected oc la f"
    "\<forall>x. label_warning oc la (norm_label f) = Some x \<longrightarrow> x \<in> set tr1"
    "\<forall>e \<in> set af1. e \<in> set af \<or> fd_label (snd e) = norm_label f"
    by blast
  from Cons.IH[of af1 w1 "la @ [norm_label f]" "sw @ tr1"]
  obtain af2 tr2 where s2:
    "parse_fields oc fs af1 w1 (la @ [norm_label f]) (sw @ tr1) =
       (af2, (if tr2 = [] then w1 else last tr2), (sw @ tr1) @ tr2)"
    "[] \<notin> set tr2"
    "(tr2 \<noteq> []) = (\<exists>i<length fs. field_rejected oc ((la @ [norm_label f]) @ map norm_label (take i fs)) (fs ! i))"
    "\<forall>i<length fs. \<forall>x. label_warning oc ((la @ [norm_label f]) @ map norm_label (take i fs)) (norm_label (fs ! i)) = Some x
            \<longrightarrow> x \<in> set tr2"
    "\<forall>e \<in> set af2. e \<in> set af1 \<or> (\<exists>f \<in> set fs. fd_label (snd e) = norm_label f)"
    by blast
  have a: "parse_fields oc (f # fs) af w la sw =
      (af2, (if tr1 @ tr2 = [] then w else last (tr1 @ tr2)), sw @ (tr1 @ tr2))"
    using s1(1,2) s2(1) by simp
  have b: "[] \<notin> set (tr1 @ tr2)" using s1(3) s2(2) by simp
  have c: "(tr1 @ tr2 \<noteq> []) =
      (\<exists>i<length (f # fs). field_rejected oc (la @ map norm_label (take i (f # fs))) ((f # fs) ! i))"
    using s1(4) s2(3) by (simp add: ex_less_Suc_split)
  have d: "\<forall>i<length (f # fs). \<forall>x.
      label_warning oc (la @ map norm_label (take i (f # fs))) (norm_label ((f # fs) ! i)) = Some x
        \<longrightarrow> x \<in> set (tr1 @ tr2)"
    using s1(5) s2(4) by (simp add: all_less_Suc_split)
  have e: "\<forall>e \<in> set af2. e \<in> set af \<or> (\<exists>g \<in> set (f # fs). fd_label (snd e) = norm_label g)"
    using s1(6) s2(5) by fastforce
  show ?case using a b c d e by blast
qed

lemma parse_result_trace:
  "parse_result oc rows =
     (if warnings_set oc rows = [] then Inr (fst (parse_fields oc rows [] [] [] []))
      else Inl (last (warnings_set oc rows)))"
proof -
  from parse_fields_trace[of oc rows "[]" "[]" "[]" "[]"]
  obtain af' tr where t: "parse_fields oc rows [] [] [] [] = (af', (if tr = [] then [] else last tr), tr)"
    "[] \<notin> set tr" by auto
  then have "tr \<noteq> [] \<Longrightarrow> last tr \<noteq> []" by (metis last_in_set)
  with t show ?thesis by (auto simp: parse_result_def warnings_set_def)
qed

lemma warnings_set_iff:
  "(warnings_set oc rows \<noteq> []) =
     (\<exists>i<length rows. field_rejected oc (map norm_label (take i rows)) (rows ! i))"
  using parse_fields_trace[of oc rows "[]" "[]" "[]" "[]"]
  by (auto simp: warnings_set_def)

lemma warnings_set_label:
  "i < length rows \<Longrightarrow> label_warning oc (map norm_label (take i rows)) (norm_label (rows ! i)) = Some x
    \<Longrightarrow> x \<in> set (warnings_set oc rows)"
  using parse_fields_trace[of oc rows "[]" "[]" "[]" "[]"]
  by (auto simp: warnings_set_def)

lemma parse_result_stored:
  "parse_result oc rows = Inr schema \<Longrightarrow> e \<in> set schema \<Longrightarrow>
   \<exists>f \<in> set rows. fd_label (snd e) = replace_spaces (label_val f)"
  using parse_fields_trace[of oc rows "[]" "[]" "[]" "[]"]
  by (auto simp: parse_result_def norm_label_def split: if_splits)

lemma parse_fields_log:
  "snd (snd (parse_fields oc fs af w la sw)) =
     sw @ concat (map (\<lambda>i. field_failures oc (la @ map norm_label (take i fs)) (fs ! i))
                      [0..<length fs])"
proof (induction fs arbitrary: af w la sw)
  case Nil
  show ?case by simp
next
  case (Cons f fs)
  from parse_fields_step[of oc f fs af w la sw]
  obtain af1 w1 tr1 where s1:
    "parse_fields oc (f # fs) af w la sw = parse_fields oc fs af1 w1 (la @ [norm_label f]) (sw @ tr1)"
    "tr1 = field_failures oc la f"
    by blast
  have "[0..<length (f # fs)] = 0 # map Suc [0..<length fs]"
    by (simp add: upt_0_Suc del: upt_Suc)
  then show ?case
    using s1 Cons.IH[of af1 w1 "la @ [norm_label f]" "sw @ tr1"]
    by (simp add: comp_def del: upt_Suc)
qed

lemma warnings_set_failures: "warnings_set oc rows = failures oc rows"
  using parse_fields_log[of oc rows "[]" "[]" "[]" "[]"]
  by (auto simp: warnings_set_def failures_def labels_before_def split: prod.splits)

lemma last_concat_upt:
  assumes "i < n" "g i \<noteq> []" "\<forall>j. i < j \<and> j < n \<longrightarrow> g j = []"
  shows "concat (map g [0..<n]) \<noteq> [] \<and> last (concat (map g [0..<n])) = last (g i)"
proof -
  have "[0..<n] = [0..<i] @ i # [Suc i..<n]"
    using assms(1) by (metis le_add1 less_imp_add_positive upt_add_eq_append upt_conv_Cons plus_nat.add_0)
  moreover have "concat (map g [Suc i..<n]) = []"
    using assms(3) by simp
  ultimately show ?thesis using assms(2) by simp
qed

lemma replace_runs_no_space: "\<forall>c \<in> set s. \<not> is_space c \<Longrightarrow> replace_runs b s = s"
  by (induction s arbitrary: b) auto

lemma replace_runs_after_text:
  "a \<noteq> [] \<Longrightarrow> \<not> is_space (last a) \<Longrightarrow>
   replace_runs b (a @ rest) = replace_runs b a @ replace_runs False rest"
  by (induction a arbitrary: b) (auto split: if_splits)

lemma replace_runs_in_run:
  "\<forall>c \<in> set ws. is_space c \<Longrightarrow> rest = [] \<or> \<not> is_space (hd rest) \<Longrightarrow>
   replace_runs True (ws @ rest) = replace_runs False rest"
  by (induction ws) (cases rest; auto)+

lemma replace_runs_run:
  "ws \<noteq> [] \<Longrightarrow> \<forall>c \<in> set ws. is_space c \<Longrightarrow> rest = [] \<or> \<not> is_space (hd rest) \<Longrightarrow>
   replace_runs False (ws @ rest) = CHR 0x20 # replace_runs False rest"
  using replace_runs_in_run[of "tl ws" rest] by (cases ws) auto

lemma replace_spaces_run:
  assumes "a = [] \<or> \<not> is_space (last a)" "ws \<noteq> []" "\<forall>c \<in> set ws. is_space c"
    "rest = [] \<or> \<not> is_space (hd rest)"
  shows "replace_spaces (a @ ws @ rest) = replace_spaces a @ [CHR 0x20] @ replace_spaces rest"
proof (cases "a = []")
  case True
  then show ?thesis using assms replace_runs_run[of ws rest] by (simp add: replace_spaces_def)
next
  case False
  then show ?thesis
    using assms replace_runs_after_text[of a False "ws @ rest"] replace_runs_run[of ws rest]
    by (simp add: replace_spaces_def)
qed

lemma replace_spaces_blank:
  "s \<noteq> [] \<Longrightarrow> \<forall>c \<in> set s. is_space c \<Longrightarrow> replace_spaces s = [CHR 0x20]"
  using replace_spaces_run[of "[]" s "[]"] by (simp add: replace_spaces_def)

lemmas example_defs =
  example_page_def text_field_def option_input_def dropdown_field_def
  repeated_option_page_def two_failures_page_def bare_dropdown_page_def
  spaced_labels_page_def blank_label_page_def items_page_def invalid_items_page_def
  item_widget_def

lemmas parse_eval =
  parseAnnotationFields_def parse_result_def warnings_set_def label_warning_def
  not_length_gt_0_def replace_spaces_def is_space_def js_index_def string_of_def Let_def
  warnEditor_def

lemma field_rejected_known:
  "known_type (type_val f) \<Longrightarrow> field_rejected oc la f = fails_rule oc la f"
  by (auto simp: field_rejected_def fails_rule_def known_type_def option_bearing_def
      norm_label_def replace_spaces_Nil_iff)

text \<open>
  \<^bold>\<open>C1\<close>, as the code has it. \<open>parseAnnotationFields\<close> returns a string exactly when some
  field of the editor fails a rule: its label is empty, its label (white space
  collapsed) is the label of a field before it, its label is a reserved column name,
  or, for a dropdown or checkbox field, no option input holds text or two option
  inputs hold the same text. The field types are those the type selector offers.
\<close>

theorem rejected_iff_rule_fails:
  assumes "list_all (\<lambda>f. known_type (type_val f)) (editor p)"
  shows "isl (fst (parseAnnotationFields p)) =
         (\<exists>i<length (editor p).
            fails_rule (original_columns p) (labels_before (editor p) i) (editor p ! i))"
proof -
  have "\<And>i. i < length (editor p) \<Longrightarrow> known_type (type_val (editor p ! i))"
    using assms by (simp add: list_all_length)
  then have "(\<exists>i<length (editor p).
                field_rejected (original_columns p) (map norm_label (take i (editor p))) (editor p ! i))
           = (\<exists>i<length (editor p).
                fails_rule (original_columns p) (labels_before (editor p) i) (editor p ! i))"
    using field_rejected_known by (auto simp: labels_before_def)
  moreover have "isl (fst (parseAnnotationFields p)) = (warnings_set (original_columns p) (editor p) \<noteq> [])"
    by (simp add: parseAnnotationFields_def parse_result_trace)
  ultimately show ?thesis
    using warnings_set_iff[of "original_columns p" "editor p"] by blast
qed

text \<open>The theorem at a page whose two fields both fail.\<close>

theorem rejected_iff_rule_fails_witness:
  "list_all (\<lambda>f. known_type (type_val f)) (editor two_failures_page)
   \<and> isl (fst (parseAnnotationFields two_failures_page))
   \<and> (\<exists>i<length (editor two_failures_page).
         fails_rule (original_columns two_failures_page)
           (labels_before (editor two_failures_page) i) (editor two_failures_page ! i))"
proof -
  have h: "list_all (\<lambda>f. known_type (type_val f)) (editor two_failures_page)"
    by (simp add: example_defs known_type_def)
  have "isl (fst (parseAnnotationFields two_failures_page))"
    by (simp add: example_defs parse_eval)
  with h rejected_iff_rule_fails[OF h] show ?thesis by simp
qed

text \<open>
  As C1 was stated, an option text entered twice is no failure as long as another
  option is unique and not empty. The code returns a warning all the same: the
  dropdown with the options \<^verbatim>\<open>A\<close>, \<^verbatim>\<open>A\<close>, \<^verbatim>\<open>B\<close> passes every stated rule.
\<close>

theorem repeated_option_counterexample:
  "fst (parseAnnotationFields repeated_option_page) = Inl ''Fields must be unique''
   \<and> length (editor repeated_option_page) = 1
   \<and> \<not> fails_stated_rule (original_columns repeated_option_page)
         (labels_before (editor repeated_option_page) 0) (editor repeated_option_page ! 0)"
  by (simp add: example_defs parse_eval fails_stated_rule_def labels_before_def norm_label_def
      option_bearing_def unique_nonempty_option_def option_vals_def)

text \<open>
  \<^bold>\<open>C5\<close>, as the code has it. Every failure assigns to \<open>warning\<close> and neither loop
  stops early, so the string returned is the warning of the last failure of the run,
  not of the first. \<open>failures\<close> lists the failures of the editor from the rules, field
  by field and within a field in the documented order (the label, then the options):
  \<open>parseAnnotationFields\<close> returns the string \<open>w\<close> exactly when that list is not empty
  and \<open>w\<close> is its last entry; the assignments the loops make are that list; and the
  last field that fails decides, with the last of its failures.
\<close>

theorem returned_warning_is_last:
  "(fst (parseAnnotationFields p) = Inl w) =
     (failures (original_columns p) (editor p) \<noteq> []
      \<and> w = last (failures (original_columns p) (editor p)))
   \<and> warnings_set (original_columns p) (editor p) = failures (original_columns p) (editor p)
   \<and> (i < length (editor p)
        \<and> field_failures (original_columns p) (labels_before (editor p) i) (editor p ! i) \<noteq> []
        \<and> (\<forall>j. i < j \<and> j < length (editor p)
               \<longrightarrow> field_failures (original_columns p) (labels_before (editor p) j) (editor p ! j) = [])
      \<longrightarrow> fst (parseAnnotationFields p) =
            Inl (last (field_failures (original_columns p) (labels_before (editor p) i) (editor p ! i))))"
proof (intro conjI impI)
  show a: "(fst (parseAnnotationFields p) = Inl w) =
     (failures (original_columns p) (editor p) \<noteq> []
      \<and> w = last (failures (original_columns p) (editor p)))"
    by (auto simp: parseAnnotationFields_def parse_result_trace warnings_set_failures)
  show "warnings_set (original_columns p) (editor p) = failures (original_columns p) (editor p)"
    by (rule warnings_set_failures)
  assume h: "i < length (editor p)
        \<and> field_failures (original_columns p) (labels_before (editor p) i) (editor p ! i) \<noteq> []
        \<and> (\<forall>j. i < j \<and> j < length (editor p)
               \<longrightarrow> field_failures (original_columns p) (labels_before (editor p) j) (editor p ! j) = [])"
  let ?g = "\<lambda>i. field_failures (original_columns p) (labels_before (editor p) i) (editor p ! i)"
  from h last_concat_upt[of i "length (editor p)" ?g]
  have "failures (original_columns p) (editor p) \<noteq> []
        \<and> last (failures (original_columns p) (editor p)) = last (?g i)"
    by (simp add: failures_def)
  then show "fst (parseAnnotationFields p) = Inl (last (?g i))"
    by (simp add: parseAnnotationFields_def parse_result_trace warnings_set_failures)
qed

text \<open>
  The theorem at two pages: a field without label before a field named as a column,
  where the second field decides, and a dropdown without label and without options,
  where the warning of the options replaces the one of the label.
\<close>

theorem returned_warning_is_last_witness:
  "failures (original_columns two_failures_page) (editor two_failures_page) =
     [''Field labels can't be empty'',
      ''Field label id is already present as a dataset item, please rename.'']
   \<and> fst (parseAnnotationFields two_failures_page) =
       Inl ''Field label id is already present as a dataset item, please rename.''
   \<and> failures (original_columns bare_dropdown_page) (editor bare_dropdown_page) =
       [''Field labels can't be empty'', ''At least one field must be added'']
   \<and> fst (parseAnnotationFields bare_dropdown_page) = Inl ''At least one field must be added''"
proof -
  have e: "editor two_failures_page = [text_field ''field-f1'' '''', text_field ''field-f2'' ''id'']"
    "original_columns two_failures_page = [''id'', ''body'']"
    "editor bare_dropdown_page = [dropdown_field ''field-f1'' '''' []]"
    "original_columns bare_dropdown_page = [''id'', ''body'']"
    by (simp_all add: two_failures_page_def bare_dropdown_page_def example_page_def)
  have f1: "failures [''id'', ''body''] [text_field ''field-f1'' '''', text_field ''field-f2'' ''id''] =
     [''Field labels can't be empty'',
      ''Field label id is already present as a dataset item, please rename.'']"
    by code_simp
  have f2: "failures [''id'', ''body''] [dropdown_field ''field-f1'' '''' []] =
       [''Field labels can't be empty'', ''At least one field must be added'']"
    by code_simp
  from returned_warning_is_last[of two_failures_page
      "''Field label id is already present as a dataset item, please rename.''" 1]
    returned_warning_is_last[of bare_dropdown_page "''At least one field must be added''" 0]
  show ?thesis by (simp add: e f1 f2)
qed

text \<open>
  C5 as stated fails where a field without label stands before a field named as a
  column: the first failure is the empty label, and the string returned is the
  warning of the column name.
\<close>

theorem first_warning_counterexample:
  "hd (failures (original_columns two_failures_page) (editor two_failures_page)) =
     ''Field labels can't be empty''
   \<and> hd (warnings_set (original_columns two_failures_page) (editor two_failures_page)) =
     ''Field labels can't be empty''
   \<and> fst (parseAnnotationFields two_failures_page) =
       Inl ''Field label id is already present as a dataset item, please rename.''
   \<and> fst (parseAnnotationFields two_failures_page) \<noteq>
       Inl (hd (failures (original_columns two_failures_page) (editor two_failures_page)))"
  by code_simp

text \<open>
  \<^bold>\<open>C9\<close>. \<open>replace_spaces\<close> turns a maximal run of white space into one space and
  leaves text without white space alone; the labels of the schema that
  \<open>parseAnnotationFields\<close> returns are labels of the editor so collapsed; a label of
  white space only becomes one space and does not get the warning of the empty label;
  and a label that is not empty and collapses to the same text as the label of a
  field before it gets the warning of the duplicate, and the function returns a
  string.
\<close>

theorem labels_normalised:
  "((a = [] \<or> \<not> is_space (last a)) \<and> ws \<noteq> [] \<and> (\<forall>c \<in> set ws. is_space c)
      \<and> (rest = [] \<or> \<not> is_space (hd rest))
      \<longrightarrow> replace_spaces (a @ ws @ rest) = replace_spaces a @ '' '' @ replace_spaces rest)
   \<and> ((\<forall>c \<in> set s. \<not> is_space c) \<longrightarrow> replace_spaces s = s)
   \<and> (fst (parseAnnotationFields p) = Inr schema \<and> (k, fd) \<in> set schema
      \<longrightarrow> (\<exists>f \<in> set (editor p). fd_label fd = replace_spaces (label_val f)))
   \<and> (i < length (editor p) \<and> label_val (editor p ! i) \<noteq> []
        \<and> (\<forall>c \<in> set (label_val (editor p ! i)). is_space c)
      \<longrightarrow> norm_label (editor p ! i) = '' ''
          \<and> label_warning (original_columns p) (labels_before (editor p) i) (norm_label (editor p ! i))
              \<noteq> Some ''Field labels can't be empty'')
   \<and> (i < j \<and> j < length (editor p) \<and> label_val (editor p ! j) \<noteq> []
        \<and> replace_spaces (label_val (editor p ! i)) = replace_spaces (label_val (editor p ! j))
      \<longrightarrow> label_warning (original_columns p) (labels_before (editor p) j) (norm_label (editor p ! j))
            = Some ''Field labels must be unique''
          \<and> ''Field labels must be unique'' \<in> set (warnings_set (original_columns p) (editor p))
          \<and> isl (fst (parseAnnotationFields p)))"
proof (intro conjI impI)
  assume "(a = [] \<or> \<not> is_space (last a)) \<and> ws \<noteq> [] \<and> (\<forall>c \<in> set ws. is_space c)
      \<and> (rest = [] \<or> \<not> is_space (hd rest))"
  then show "replace_spaces (a @ ws @ rest) = replace_spaces a @ '' '' @ replace_spaces rest"
    using replace_spaces_run[of a ws rest] by simp
next
  assume "\<forall>c \<in> set s. \<not> is_space c"
  then show "replace_spaces s = s" by (simp add: replace_spaces_def replace_runs_no_space)
next
  assume "fst (parseAnnotationFields p) = Inr schema \<and> (k, fd) \<in> set schema"
  then show "\<exists>f \<in> set (editor p). fd_label fd = replace_spaces (label_val f)"
    using parse_result_stored[of "original_columns p" "editor p" schema "(k, fd)"]
    by (simp add: parseAnnotationFields_def)
next
  assume b: "i < length (editor p) \<and> label_val (editor p ! i) \<noteq> []
        \<and> (\<forall>c \<in> set (label_val (editor p ! i)). is_space c)"
  then show n: "norm_label (editor p ! i) = '' ''"
    using replace_spaces_blank[of "label_val (editor p ! i)"] by (simp add: norm_label_def)
  show "label_warning (original_columns p) (labels_before (editor p) i) (norm_label (editor p ! i))
              \<noteq> Some ''Field labels can't be empty''"
    by (simp add: n label_warning_def not_length_gt_0_def)
next
  assume d: "i < j \<and> j < length (editor p) \<and> label_val (editor p ! j) \<noteq> []
        \<and> replace_spaces (label_val (editor p ! i)) = replace_spaces (label_val (editor p ! j))"
  then have "take j (editor p) ! i \<in> set (take j (editor p))"
    by (intro nth_mem) simp
  then have "norm_label (editor p ! i) \<in> set (labels_before (editor p) j)"
    using d by (auto simp: labels_before_def)
  then have mem: "norm_label (editor p ! j) \<in> set (labels_before (editor p) j)"
    using d by (simp add: norm_label_def)
  have ne: "norm_label (editor p ! j) \<noteq> []"
    using d by (simp add: norm_label_def replace_spaces_Nil_iff)
  show lw: "label_warning (original_columns p) (labels_before (editor p) j) (norm_label (editor p ! j))
            = Some ''Field labels must be unique''"
    using mem ne by (simp add: label_warning_def not_length_gt_0_def)
  then show m: "''Field labels must be unique'' \<in> set (warnings_set (original_columns p) (editor p))"
    using d warnings_set_label[of j "editor p" "original_columns p"]
    by (simp add: labels_before_def)
  then have "warnings_set (original_columns p) (editor p) \<noteq> []" by auto
  then show "isl (fst (parseAnnotationFields p))"
    by (simp add: parseAnnotationFields_def parse_result_trace)
qed

text \<open>
  The theorem at the labels \<^verbatim>\<open>my  label\<close> and \<^verbatim>\<open>my label\<close>, and at a label of a space,
  a tab and a space.
\<close>

theorem labels_normalised_witness:
  "replace_spaces ''my  label'' = ''my label''
   \<and> norm_label (editor blank_label_page ! 0) = '' ''
   \<and> fst (parseAnnotationFields blank_label_page) =
       Inr [(''f1'', \<lparr>fd_type = ''text'', fd_label = '' '', fd_options = None\<rparr>)]
   \<and> ''Field labels must be unique''
       \<in> set (warnings_set (original_columns spaced_labels_page) (editor spaced_labels_page))
   \<and> isl (fst (parseAnnotationFields spaced_labels_page))"
proof -
  have s: "replace_spaces ''my  label'' = ''my label''"
    by (simp add: replace_spaces_def is_space_def)
  have e: "editor spaced_labels_page = [text_field ''field-f1'' ''my  label'', text_field ''field-f2'' ''my label'']"
    "editor blank_label_page = [text_field ''field-f1'' [CHR 0x20, CHR 0x09, CHR 0x20]]"
    by (simp_all add: example_defs)
  have b: "fst (parseAnnotationFields blank_label_page) =
       Inr [(''f1'', \<lparr>fd_type = ''text'', fd_label = '' '', fd_options = None\<rparr>)]"
    by (simp add: example_defs parse_eval)
  from labels_normalised[of "[]" "[]" "[]" "[]" blank_label_page "[]" "[]" "notes_field []" 0 0]
  have "norm_label (editor blank_label_page ! 0) = '' ''"
    by (simp add: e text_field_def is_space_def)
  moreover from labels_normalised[of "[]" "[]" "[]" "[]" spaced_labels_page "[]" "[]" "notes_field []" 0 1]
  have "''Field labels must be unique''
       \<in> set (warnings_set (original_columns spaced_labels_page) (editor spaced_labels_page))
     \<and> isl (fst (parseAnnotationFields spaced_labels_page))"
    by (simp add: e text_field_def replace_spaces_def is_space_def)
  ultimately show ?thesis using s b by simp
qed


subsection \<open>Saving the schema and the answers of the server\<close>

lemma not_less_than_one: "\<not> js_less (to_number v) (Finite 1)"
  by (simp add: to_number_def split: option.splits)

text \<open>
  \<^bold>\<open>C10\<close>. Whatever the schema, the guard of \<open>saveAnnotationFields\<close> is not taken,
  since the property \<^verbatim>\<open>length\<close> it compares with 1 is no number, and the request is
  sent; so it is for the empty schema.
\<close>

theorem schema_always_posted:
  "requests (saveAnnotationFields annotation_fields p) =
     requests p @ [\<lparr>url = getRelativeURL (''explorer/save_annotation_fields/'' @ dataset_key p) p,
                     data = Fields annotation_fields\<rparr>]
   \<and> requests (saveAnnotationFields [] p) =
     requests p @ [\<lparr>url = getRelativeURL (''explorer/save_annotation_fields/'' @ dataset_key p) p,
                     data = Fields []\<rparr>]
   \<and> to_number (length_property annotation_fields) = NaN"
  by (simp add: saveAnnotationFields_def not_less_than_one fieldsExist_def getRelativeURL_def Let_def
      to_number_def split: option.splits)

text \<open>The theorem at the empty schema.\<close>

theorem schema_always_posted_witness:
  "requests (saveAnnotationFields [] example_page) =
     [\<lparr>url = ''/explorer/save_annotation_fields/abc'', data = Fields []\<rparr>]"
  using schema_always_posted[of "[]" example_page]
  by (simp add: example_page_def getRelativeURL_def)

lemma strict_equals_string_iff: "strict_equals_string v s = (v = JString s)"
  by (cases v) (auto simp: strict_equals_string_def)

text \<open>
  \<^bold>\<open>C7\<close>. Both \<open>success\<close> callbacks take their first branch exactly when the response
  is the string \<^verbatim>\<open>success\<close>. Any other response warns in the editor (schema), or shows
  the alert and leaves \<^verbatim>\<open>#save-annotations\<close> enabled (annotations).
\<close>

theorem success_only_on_success_string:
  "save_fields_success response p =
     (if response = JString ''success''
      then p\<lparr>editor_container_hidden := True, apply_disabled := True\<rparr>
      else p\<lparr>input_warning := ''Couldn't save annotation fields'', input_warning_hidden := False\<rparr>)
   \<and> save_annotations_success response p =
     (if response = JString ''success''
      then p\<lparr>save_disabled := True, save_to_dataset_disabled := False,
             save_html := ''<i class='fas fa-save'></i> Annotations saved''\<rparr>
      else p\<lparr>save_disabled := False, save_to_dataset_disabled := False,
             save_html := ''<i class='fas fa-save'></i> Save annotations'',
             alerts := alerts p @ [''Could't save annotations'']\<rparr>)
   \<and> save_disabled (save_annotations_success response p) = (response = JString ''success'')
   \<and> (alerts (save_annotations_success response p) = alerts p) = (response = JString ''success'')"
  by (simp add: save_fields_success_def save_annotations_success_def strict_equals_string_iff
      warnEditor_def enableSaving_def Let_def)

text \<open>
  The theorem at the responses \<^verbatim>\<open>success\<close>, \<^verbatim>\<open>Success\<close>, \<^verbatim>\<open>null\<close> and \<^verbatim>\<open>success\<close>
  followed by a space.
\<close>

theorem success_only_on_success_string_witness:
  "save_disabled (save_annotations_success (JString ''success'') example_page)
   \<and> \<not> save_disabled (save_annotations_success (JString ''Success'') example_page)
   \<and> alerts (save_annotations_success JNull example_page) = [''Could't save annotations'']
   \<and> input_warning (save_fields_success (JString ''success '') example_page) =
       ''Couldn't save annotation fields''
   \<and> editor_container_hidden (save_fields_success (JString ''success'') example_page)"
  using success_only_on_success_string[of "JString ''success''" example_page]
    success_only_on_success_string[of "JString ''Success''" example_page]
    success_only_on_success_string[of JNull example_page]
    success_only_on_success_string[of "JString ''success ''" example_page]
  by (simp add: example_page_def)


subsection \<open>Applying an invalid schema\<close>

text \<open>
  \<^bold>\<open>C4\<close>. When \<open>parseAnnotationFields\<close> returns a string, \<open>applyAnnotationFields\<close> shows
  it in the warning line and changes nothing else: no request is sent and the widgets
  of the items stay as they are.
\<close>

theorem invalid_schema_blocks:
  assumes "fst (parseAnnotationFields p) = Inl warning"
  shows "applyAnnotationFields p = p\<lparr>input_warning := warning, input_warning_hidden := False\<rparr>
         \<and> input_warning (applyAnnotationFields p) = warning
         \<and> requests (applyAnnotationFields p) = requests p
         \<and> posts (applyAnnotationFields p) = posts p"
  using assms
  by (simp add: applyAnnotationFields_def parseAnnotationFields_def warnEditor_def)

text \<open>The theorem at a page with an item and an editor with two failing fields.\<close>

theorem invalid_schema_blocks_witness:
  "fst (parseAnnotationFields invalid_items_page) =
     Inl ''Field label id is already present as a dataset item, please rename.''
   \<and> input_warning (applyAnnotationFields invalid_items_page) =
     ''Field label id is already present as a dataset item, please rename.''
   \<and> requests (applyAnnotationFields invalid_items_page) = []
   \<and> posts (applyAnnotationFields invalid_items_page) =
       [\<lparr>li_id = ''post-42'', post_annotations = [item_widget ''hello'']\<rparr>]"
proof -
  have h: "fst (parseAnnotationFields invalid_items_page) =
     Inl ''Field label id is already present as a dataset item, please rename.''"
    by (simp add: example_defs parse_eval)
  have "requests invalid_items_page = []"
    "posts invalid_items_page = [\<lparr>li_id = ''post-42'', post_annotations = [item_widget ''hello'']\<rparr>]"
    by (simp_all add: invalid_items_page_def items_page_def example_page_def)
  with h invalid_schema_blocks[OF h] show ?thesis by simp
qed


subsection \<open>Save triggers\<close>

lemma trigger_disabled: "save_disabled p \<Longrightarrow> trigger t p = p"
  by (cases t) simp_all

lemma run_save_ok:
  "posts_loop (posts p) [] = Inr anns \<Longrightarrow>
   run_save p =
     p\<lparr>save_html := ''<i class='fas fa-circle-notch spinner'></i> Saving annotations'',
       save_disabled := True, save_to_dataset_disabled := True,
       requests := requests p @
         [\<lparr>url = getRelativeURL (''explorer/save_annotations/'' @ dataset_key p) p,
           data = Annotations anns\<rparr>]\<rparr>"
  by (simp add: run_save_def saveAnnotations_def disableSaving_def getRelativeURL_def Let_def)

lemma trigger_fires:
  "posts_loop (posts p) [] = Inr anns \<Longrightarrow> \<not> save_disabled p \<Longrightarrow> t \<noteq> TimerTick \<or> edits_made p \<Longrightarrow>
   trigger t p = run_save p"
  by (cases t) auto

text \<open>
  \<^bold>\<open>C6\<close>, as the code has it. From a page whose widgets can be read and whose save
  button is enabled, a trigger (the timer only after an edit) sends one request and
  disables the button; while the button is disabled no trigger does anything; and
  once a failure answer, a failed request or an edit has enabled the button again, a
  click on the button or on a pagination link sends the second request, whereas the
  timer sends it only if an edit was made since the page was loaded.
\<close>

theorem one_save_in_flight:
  assumes "posts_loop (posts p) [] = Inr anns"
    and "\<not> save_disabled p"
    and "t1 \<noteq> TimerTick \<or> edits_made p"
    and "cleared = save_annotations_success response (trigger t1 p) \<and> response \<noteq> JString ''success''
         \<or> cleared = save_annotations_error (trigger t1 p)
         \<or> cleared = widget_edited (trigger t1 p)"
  shows "length (requests (trigger t1 p)) = length (requests p) + 1
         \<and> save_disabled (trigger t1 p)
         \<and> requests (trigger t2 (trigger t1 p)) = requests (trigger t1 p)
         \<and> (save_disabled p' \<longrightarrow> trigger t2 p' = p')
         \<and> \<not> save_disabled cleared
         \<and> requests cleared = requests (trigger t1 p)
         \<and> length (requests (trigger t2 cleared)) =
             (if t2 = TimerTick \<and> \<not> edits_made cleared then length (requests p) + 1
              else length (requests p) + 2)"
proof -
  let ?p1 = "trigger t1 p"
  have p1: "?p1 = run_save p" using assms(1-3) by (rule trigger_fires)
  have p1': "?p1 = p\<lparr>save_html := ''<i class='fas fa-circle-notch spinner'></i> Saving annotations'',
       save_disabled := True, save_to_dataset_disabled := True,
       requests := requests p @
         [\<lparr>url = getRelativeURL (''explorer/save_annotations/'' @ dataset_key p) p,
           data = Annotations anns\<rparr>]\<rparr>"
    using p1 run_save_ok[OF assms(1)] by simp
  have a: "length (requests ?p1) = length (requests p) + 1" "save_disabled ?p1"
    by (simp_all add: p1')
  have b: "requests (trigger t2 ?p1) = requests ?p1"
    using a(2) by (simp add: trigger_disabled)
  have c: "\<not> save_disabled cleared" "requests cleared = requests ?p1" "posts cleared = posts p"
    using assms(4)
    by (auto simp: p1' save_annotations_success_def save_annotations_error_def widget_edited_def
        enableSaving_def strict_equals_string_def Let_def split: js_value.splits)
  have d: "length (requests (trigger t2 cleared)) =
             (if t2 = TimerTick \<and> \<not> edits_made cleared then length (requests p) + 1
              else length (requests p) + 2)"
  proof (cases "t2 = TimerTick \<and> \<not> edits_made cleared")
    case True
    then show ?thesis using c a by simp
  next
    case False
    have pl: "posts_loop (posts cleared) [] = Inr anns" using c(3) assms(1) by simp
    from False have "t2 \<noteq> TimerTick \<or> edits_made cleared" by blast
    from trigger_fires[OF pl c(1) this] run_save_ok[OF pl] False c a
    show ?thesis by simp
  qed
  show ?thesis using a b c d trigger_disabled by blast
qed

text \<open>
  The theorem at a page with one item: a click, a tick of the timer in the disabled
  window, a failed request, and a click on a pagination link.
\<close>

theorem one_save_in_flight_witness:
  "length (requests (trigger ManualClick items_page)) = 1
   \<and> save_disabled (trigger ManualClick items_page)
   \<and> requests (trigger TimerTick (trigger ManualClick items_page)) =
       requests (trigger ManualClick items_page)
   \<and> length (requests (trigger PaginationClick
                 (save_annotations_error (trigger ManualClick items_page)))) = 2"
proof -
  have h1: "posts_loop (posts items_page) [] =
      Inr [\<lparr>field_id = ''f1'', item_id = ''42'', label = ''Notes'', ann_type = ''text'',
            ann_value = JString ''hello'', author = ''Jan'', by_processor = False\<rparr>]"
    by code_simp
  have h2: "\<not> save_disabled items_page"
    by (simp add: items_page_def example_page_def)
  have h3: "ManualClick \<noteq> TimerTick \<or> edits_made items_page"
    by simp
  have h4: "save_annotations_error (trigger ManualClick items_page) =
        save_annotations_success JNull (trigger ManualClick items_page) \<and> JNull \<noteq> JString ''success''
      \<or> save_annotations_error (trigger ManualClick items_page) =
        save_annotations_error (trigger ManualClick items_page)
      \<or> save_annotations_error (trigger ManualClick items_page) =
        widget_edited (trigger ManualClick items_page)"
    by simp
  have r: "length (requests items_page) = 0"
    by (simp add: items_page_def example_page_def)
  from one_save_in_flight[OF h1 h2 h3 h4, of TimerTick items_page]
    one_save_in_flight[OF h1 h2 h3 h4, of PaginationClick items_page] r
  show ?thesis by simp
qed

text \<open>
  C6 as stated fails for the timer: after a click on a page without edits and a
  failure answer, the button is enabled again, and the tick of the timer sends no
  second request.
\<close>

theorem timer_without_edit_counterexample:
  "\<not> save_disabled (save_annotations_success (JString ''error'') (trigger ManualClick items_page))
   \<and> length (requests (trigger TimerTick
                 (save_annotations_success (JString ''error'') (trigger ManualClick items_page)))) = 1"
  by code_simp


subsection \<open>Option inputs\<close>

lemma siblings_loop_iff:
  "siblings_loop xs b = (b \<and> (\<forall>x \<in> set xs. input_val x \<noteq> []))"
  by (induction xs arbitrary: b) (auto simp: not_length_gt_0_def)

lemma delete_controls_loop_vals:
  "map input_val (delete_controls_loop count amount xs) = map input_val xs"
  by (induction xs arbitrary: count) auto

lemma delete_controls_loop_length:
  "length (delete_controls_loop count amount xs) = length xs"
  using delete_controls_loop_vals[of count amount xs] by (metis length_map)

lemma empty_inputs_vals: "empty_inputs xs = length (filter (\<lambda>v. v = []) (map input_val xs))"
  by (simp add: empty_inputs_def filter_map comp_def)

lemma empty_inputs_append: "empty_inputs (xs @ ys) = empty_inputs xs + empty_inputs ys"
  by (simp add: empty_inputs_def)

lemma empty_inputs_zero: "(empty_inputs xs = 0) = (\<forall>x \<in> set xs. input_val x \<noteq> [])"
  by (auto simp: empty_inputs_def filter_empty_conv)

lemma length_takeWhile_le_filter: "length (takeWhile P xs) \<le> length (filter P xs)"
  by (induction xs) auto

lemma trailing_le_empty: "trailing_empty xs \<le> empty_inputs xs"
proof -
  have "length (filter (\<lambda>x. input_val x = []) (rev xs)) = length (filter (\<lambda>x. input_val x = []) xs)"
    by (simp add: rev_filter[symmetric])
  then show ?thesis
    using length_takeWhile_le_filter[of "\<lambda>x. input_val x = []" "rev xs"]
    by (simp add: trailing_empty_def empty_inputs_def)
qed

lemma addOptions_vals:
  assumes "el < length g"
  shows "map input_val (addOptions el r g) =
     (if \<forall>x \<in> set g. input_val x \<noteq> []
      then map input_val (take (Suc el) g) @ [[]] @ map input_val (drop (Suc el) g)
      else map input_val g)"
proof -
  have "g = take el g @ g ! el # drop (Suc el) g"
    using assms by (rule id_take_nth_drop)
  then have "set g = set (take el g @ g ! el # drop (Suc el) g)" by simp
  then have "set g = set (take el g @ drop (Suc el) g) \<union> {g ! el}" by auto
  then have "siblings_loop (take el g @ drop (Suc el) g)
              (if not_length_gt_0 (input_val (g ! el)) then False else True)
            = (\<forall>x \<in> set g. input_val x \<noteq> [])"
    by (auto simp: siblings_loop_iff not_length_gt_0_def)
  then show ?thesis
    using assms
    by (simp add: addOptions_def Let_def delete_controls_loop_vals getInputField_def comp_def
        del: siblings_loop.simps)
qed

lemma addOptions_empty_inputs:
  "empty_inputs g \<le> 1 \<Longrightarrow> empty_inputs (addOptions el r g) \<le> 1"
proof (cases "el < length g")
  case True
  assume a: "empty_inputs g \<le> 1"
  show ?thesis
  proof (cases "\<forall>x \<in> set g. input_val x \<noteq> []")
    case all: True
    then have z: "empty_inputs g = 0" by (simp add: empty_inputs_zero)
    have "map input_val g = map input_val (take (Suc el) g) @ map input_val (drop (Suc el) g)"
      by (metis append_take_drop_id map_append)
    then have "length (filter (\<lambda>v. v = []) (map input_val (take (Suc el) g)))
             + length (filter (\<lambda>v. v = []) (map input_val (drop (Suc el) g))) = 0"
      using z by (metis empty_inputs_vals filter_append length_append)
    moreover have "map input_val (addOptions el r g) =
        map input_val (take (Suc el) g) @ [[]] @ map input_val (drop (Suc el) g)"
      using addOptions_vals[OF True, of r] all by simp
    ultimately show ?thesis
      by (simp add: empty_inputs_vals)
  next
    case False
    then have "map input_val (addOptions el r g) = map input_val g"
      using addOptions_vals[OF True, of r] by (auto split: if_splits)
    then show ?thesis using a by (simp add: empty_inputs_vals)
  qed
next
  case False
  assume "empty_inputs g \<le> 1"
  with False show ?thesis by (simp add: addOptions_def)
qed

lemma addOptions_sole:
  assumes "el < length g" "length (addOptions el r g) = 1"
  shows "\<not> delete_option_field (addOptions el r g ! 0)"
proof -
  let ?g1 = "if siblings_loop (take el g @ drop (Suc el) g)
                  (if not_length_gt_0 (input_val (g ! el)) then False else True)
             then take (Suc el) g @ [getInputField r] @ drop (Suc el) g else g"
  let ?g2 = "map (\<lambda>input_field. input_field\<lparr>delete_option_field := False\<rparr>) ?g1"
  have eq: "addOptions el r g = delete_controls_loop 0 (length ?g2) ?g2"
    using assms(1) by (simp add: addOptions_def Let_def del: siblings_loop.simps)
  then have "length ?g2 = 1"
    using assms(2) by (simp add: delete_controls_loop_length del: siblings_loop.simps)
  then obtain x where x: "?g2 = [x]" by (cases ?g2) auto
  have "\<forall>y \<in> set ?g2. \<not> delete_option_field y" by auto
  then have "\<not> delete_option_field x" unfolding x by simp
  then show ?thesis unfolding eq x by simp
qed

lemma addOptions_ok: "group_ok g \<Longrightarrow> group_ok (addOptions el r g)"
proof (cases "el < length g")
  case True
  assume "group_ok g"
  then show ?thesis
    using addOptions_empty_inputs[of g el r] addOptions_sole[OF True, of r]
    by (auto simp: group_ok_def)
next
  case False
  assume "group_ok g"
  with False show ?thesis by (simp add: addOptions_def)
qed

lemma empty_inputs_remove: "empty_inputs (take el g @ drop (Suc el) g) \<le> empty_inputs g"
proof -
  have "empty_inputs g = empty_inputs (take el g) + empty_inputs (drop el g)"
    by (metis append_take_drop_id empty_inputs_append)
  moreover have "empty_inputs (drop (Suc el) g) \<le> empty_inputs (drop el g)"
    by (cases "el < length g") (auto simp: empty_inputs_def Cons_nth_drop_Suc[symmetric])
  ultimately show ?thesis by (simp add: empty_inputs_append)
qed

lemma deleteOption_ok: "group_ok g \<Longrightarrow> group_ok (deleteOption el g)"
proof -
  assume a: "group_ok g"
  let ?g1 = "take el g @ drop (Suc el) g"
  have e: "empty_inputs ?g1 \<le> 1" using a empty_inputs_remove[of el g] by (simp add: group_ok_def)
  show ?thesis
  proof (cases "length ?g1 = 1")
    case True
    then obtain x where x: "?g1 = [x]" by (cases ?g1) auto
    have "empty_inputs [x\<lparr>delete_option_field := False\<rparr>] = empty_inputs [x]"
      by (simp add: empty_inputs_def)
    then show ?thesis using True e x by (simp add: deleteOption_def group_ok_def Let_def)
  next
    case False
    then show ?thesis using e by (simp add: deleteOption_def group_ok_def Let_def)
  qed
qed

lemma set_text_ok:
  assumes "group_ok g" "el < length g" "tx \<noteq> []"
  shows "empty_inputs (g[el := (g ! el)\<lparr>input_val := tx\<rparr>]) \<le> 1"
proof -
  have g: "g = take el g @ (g ! el) # drop (Suc el) g"
    using assms(2) by (simp add: id_take_nth_drop[symmetric])
  have u: "g[el := (g ! el)\<lparr>input_val := tx\<rparr>] = take el g @ ((g ! el)\<lparr>input_val := tx\<rparr>) # drop (Suc el) g"
    using assms(2) by (simp add: upd_conv_take_nth_drop)
  have "empty_inputs (take el g @ ((g ! el)\<lparr>input_val := tx\<rparr>) # drop (Suc el) g)
        \<le> empty_inputs (take el g @ (g ! el) # drop (Suc el) g)"
    using assms(3) by (simp add: empty_inputs_def)
  then show ?thesis using assms(1) g u by (simp add: group_ok_def)
qed

lemma group_handler_ok:
  assumes "group_ok g" "leaves_text ev"
  shows "group_ok (group_handler ev g)"
proof (cases ev)
  case (Keyup el tx random)
  show ?thesis
  proof (cases "el < length g")
    case True
    let ?g1 = "g[el := (g ! el)\<lparr>input_val := tx\<rparr>]"
    have t: "tx \<noteq> []" using assms(2) Keyup by simp
    have e: "empty_inputs ?g1 \<le> 1" using set_text_ok[OF assms(1) True t] .
    have l: "el < length ?g1" using True by simp
    have "empty_inputs (addOptions el random ?g1) \<le> 1" using e by (rule addOptions_empty_inputs)
    then have "group_ok (addOptions el random ?g1)"
      using addOptions_sole[OF l, of random] by (auto simp: group_ok_def)
    then show ?thesis using True t Keyup by (simp add: Let_def)
  next
    case False
    then show ?thesis using assms(1) Keyup by simp
  qed
next
  case (ClickDelete el)
  then show ?thesis using assms(1) deleteOption_ok[of g el] by simp
qed

lemma group_handlers_ok:
  "group_ok g \<Longrightarrow> list_all leaves_text evs \<Longrightarrow> group_ok (group_handlers evs g)"
  by (induction evs arbitrary: g) (auto simp: group_handler_ok)

text \<open>
  \<^bold>\<open>C8\<close>, as the code has it. A group with at most one empty input, whose input has
  no delete control when it is the only one, stays so under \<open>addOptions\<close> and
  \<open>deleteOption\<close>, and under every sequence of the two handlers in which no key
  event leaves its input empty; such a group has at most one empty input at its end.
  The group that \<open>toggleField\<close> creates is of this kind.
\<close>

theorem option_group_invariant:
  "(group_ok inputs \<longrightarrow>
      group_ok (addOptions el random inputs) \<and> group_ok (deleteOption el inputs))
   \<and> (group_ok inputs \<and> list_all leaves_text evs \<longrightarrow>
        empty_inputs (group_handlers evs inputs) \<le> 1
        \<and> trailing_empty (group_handlers evs inputs) \<le> 1
        \<and> (length (group_handlers evs inputs) = 1 \<longrightarrow>
             \<not> delete_option_field (group_handlers evs inputs ! 0)))
   \<and> group_ok (toggleField ''dropdown'' random [])"
proof (intro conjI impI)
  assume "group_ok inputs"
  then show "group_ok (addOptions el random inputs)" by (rule addOptions_ok)
next
  assume "group_ok inputs"
  then show "group_ok (deleteOption el inputs)" by (rule deleteOption_ok)
next
  assume "group_ok inputs \<and> list_all leaves_text evs"
  then have ok: "group_ok (group_handlers evs inputs)" by (simp add: group_handlers_ok)
  then show e: "empty_inputs (group_handlers evs inputs) \<le> 1" by (simp add: group_ok_def)
  show "trailing_empty (group_handlers evs inputs) \<le> 1"
    using e trailing_le_empty[of "group_handlers evs inputs"] by simp
  assume "length (group_handlers evs inputs) = 1"
  then show "\<not> delete_option_field (group_handlers evs inputs ! 0)"
    using ok by (simp add: group_ok_def)
next
  show "group_ok (toggleField ''dropdown'' random [])"
    by (simp add: toggleField_def getInputField_def group_ok_def empty_inputs_def)
qed

text \<open>
  The theorem at a new dropdown: the user types \<^verbatim>\<open>A\<close> and \<^verbatim>\<open>B\<close> and deletes both
  options; the empty input that remains has no delete control.
\<close>

theorem option_group_invariant_witness:
  "group_ok (toggleField ''dropdown'' ''0'' [])
   \<and> list_all leaves_text [Keyup 0 ''A'' ''1'', Keyup 1 ''B'' ''2'', ClickDelete 0, ClickDelete 0]
   \<and> length (group_handlers [Keyup 0 ''A'' ''1'', Keyup 1 ''B'' ''2'', ClickDelete 0, ClickDelete 0]
               (toggleField ''dropdown'' ''0'' [])) = 1
   \<and> trailing_empty (group_handlers [Keyup 0 ''A'' ''1'', Keyup 1 ''B'' ''2'', ClickDelete 0, ClickDelete 0]
               (toggleField ''dropdown'' ''0'' [])) \<le> 1
   \<and> \<not> delete_option_field
         (group_handlers [Keyup 0 ''A'' ''1'', Keyup 1 ''B'' ''2'', ClickDelete 0, ClickDelete 0]
            (toggleField ''dropdown'' ''0'' []) ! 0)"
proof -
  let ?evs = "[Keyup 0 ''A'' ''1'', Keyup 1 ''B'' ''2'', ClickDelete 0, ClickDelete 0]"
  let ?g = "toggleField ''dropdown'' ''0'' []"
  have g: "group_ok ?g"
    by (simp add: toggleField_def getInputField_def group_ok_def empty_inputs_def)
  have l: "list_all leaves_text ?evs" by simp
  have n: "length (group_handlers ?evs ?g) = 1" by code_simp
  from option_group_invariant[of ?g 0 "''0''" ?evs] g l n
  show ?thesis by simp
qed

text \<open>
  C8 as stated fails once the user empties an input: after \<^verbatim>\<open>A\<close> and \<^verbatim>\<open>B\<close> are typed
  and the second input is emptied again, a key in the first input calls \<open>addOptions\<close>,
  which leaves the two empty inputs at the end of the group.
\<close>

theorem emptied_input_counterexample:
  "trailing_empty (group_handlers emptied_input_events (toggleField ''dropdown'' ''0'' [])) = 2
   \<and> trailing_empty
        (addOptions 0 ''4''
           (group_handlers (butlast emptied_input_events) (toggleField ''dropdown'' ''0'' []))) = 2"
  by code_simp


subsection \<open>Reading a checkbox widget\<close>

lemma checkbox_loop_unchecked: "\<not> is_checked [ann] \<Longrightarrow> checkbox_loop ann inputs val = val"
  by (induction inputs arbitrary: val) auto

lemma checkbox_value_of_div:
  assumes "tag (attrs ann) = ''div''" "parseAnnotation ann = Inr a" "ann_type a = ''checkbox''"
  shows "ann_value a = JUndefined"
proof -
  have "\<not> is_checked [ann]" using assms(1) by (simp add: is_checked_def)
  then have "checkbox_loop ann (options_inputs ann) [] = []" by (rule checkbox_loop_unchecked)
  then show ?thesis
    using assms(2,3)
    by (auto simp: parseAnnotation_def Let_def not_length_gt_0_def split: option.splits if_splits)
qed

text \<open>
  \<^bold>\<open>C2\<close>: what the code does. For the checkbox widget with the options
  \<^verbatim>\<open>{o1: "A", o2: "B"}\<close> and the box of \<^verbatim>\<open>o1\<close> checked, \<open>parseAnnotation\<close> returns the
  value \<^verbatim>\<open>undefined\<close>, not \<^verbatim>\<open>["A"]\<close>: the loop asks whether the widget, a \<^verbatim>\<open>div\<close>, is
  checked, instead of the checkbox; the checkbox itself is checked and has the value
  \<^verbatim>\<open>A\<close>.
\<close>

theorem checked_box_gives_undefined:
  "parseAnnotation (checkbox_widget True False) =
     Inr \<lparr>field_id = ''f1'', item_id = ''42'', label = ''Choice'', ann_type = ''checkbox'',
          ann_value = JUndefined, author = ''Jan'', by_processor = False\<rparr>
   \<and> is_checked (take 1 (options_inputs (checkbox_widget True False)))
   \<and> jq_val (take 1 (options_inputs (checkbox_widget True False))) = JString ''A''"
  by code_simp

subsection \<open>A field that changes between text and textarea\<close>

lemma textarea_text_plain: "CHR ''&'' \<notin> set s \<Longrightarrow> textarea_text s = s"
  by (induction s) auto

lemma filter_map_same:
  "(\<And>x. x \<in> set xs \<Longrightarrow> P (g x) = P x) \<Longrightarrow> filter P (map g xs) = map g (filter P xs)"
  by (induction xs) auto

lemma kids_class_changes:
  "kids (addClass c w) = kids w" "kids (removeClass c w) = kids w"
  by (simp_all add: addClass_def removeClass_def)

lemma convert_widget_inputs:
  "children_class ''post-annotation-input'' (convert_widget field input_type old_input_type w) =
   map (converted field input_type old_input_type) (children_class ''post-annotation-input'' w)"
proof -
  let ?g = "\<lambda>k. if has_class ''post-annotation-input'' k
                 then converted field input_type old_input_type k else k"
  have same: "\<And>k. has_class ''post-annotation-input'' (?g k) = has_class ''post-annotation-input'' k"
    by (auto simp: converted_def has_class_def element_def Let_def)
  have k: "kids (convert_widget field input_type old_input_type w) = map ?g (kids w)"
    by (simp add: convert_widget_def Let_def kids_class_changes)
  have "filter (has_class ''post-annotation-input'') (map ?g (kids w)) =
        map ?g (filter (has_class ''post-annotation-input'') (kids w))"
    by (rule filter_map_same) (rule same)
  also have "\<dots> = map (converted field input_type old_input_type)
                     (filter (has_class ''post-annotation-input'') (kids w))"
    by (rule map_cong) auto
  finally show ?thesis by (simp add: children_class_def k)
qed

lemma converted_values:
  "val_of (converted field ''text'' (Some ''textarea'') k) = val_of k"
  "val_of (converted field ''textarea'' (Some ''text'') k) = textarea_text (val_of k)"
  by (simp_all add: converted_def val_of_def form_control_def element_def Let_def)

text \<open>
  So a change from a textarea to a text input keeps the text of every widget of the
  field, and a change from a text input to a textarea keeps every text without an
  ampersand.
\<close>

text \<open>
  \<^bold>\<open>C3\<close>: what the code does. A text widget holds \<^verbatim>\<open>a&amp;b\<close>; when its field becomes a
  textarea, the textarea that replaces the input holds \<^verbatim>\<open>a&b\<close>: the text went through
  markup. The way back, from a textarea to a text input, keeps \<^verbatim>\<open>a&amp;b\<close>.
\<close>

theorem ampersand_text_not_carried_over:
  "input_values ampersand_page = [[''a&amp;b'']]
   \<and> input_values (applyAnnotationFields ampersand_page) = [[''a&b'']]
   \<and> input_values (applyAnnotationFields ampersand_back_page) = [[''a&amp;b'']]"
  by code_simp


end
